theory Spec2Isabelle
  imports Complex_Main "HOL-Library.AList" "HOL-Library.Sublist" "HOL-Library.Word"
begin

section \<open>Tiered storage of billing records: the model\<close>

text \<open>
  The program \<^verbatim>\<open>devops_screening_script.py\<close> keeps billing records as JSON files in four
  directories (hot, cool, archive, rehydrated), moves them between the first three by age
  (\<^verbatim>\<open>manage_data_tiers\<close>) and reads them back (\<^verbatim>\<open>retrieve_data\<close>). The embedding below follows
  the source function by function. What the source gets from the operating system and from
  Python's standard library is made explicit:
  \<^item> the file system is a value: each of the four directories is either missing or an
    association list from entry names to entries (a regular file with its bytes, or a
    sub-directory); file operations fail for the reasons visible in that value (no such
    directory, no such entry, the entry is a directory). What the operating system may
    refuse beyond that is modelled for \<^verbatim>\<open>os.remove\<close> in the transition pass (the functions
    with the suffix \<open>_perm\<close> at the end of this section); failures of the device are not
    modelled;
  \<^item> \<^verbatim>\<open>os.path.join(tier_path, filename)\<close> is the pair of the tier and the entry name, so a
    file name is one path component (a name with a path separator is outside the model);
  \<^item> \<^verbatim>\<open>json\<close>, \<^verbatim>\<open>gzip\<close> and \<^verbatim>\<open>datetime.fromisoformat\<close> are parameters (a record of
    functions), since their code is not part of the program;
  \<^item> \<^verbatim>\<open>datetime.now()\<close> is the parameter \<open>now\<close> of the transition pass;
  \<^item> \<^verbatim>\<open>print\<close> and \<^verbatim>\<open>time.sleep\<close> do not change the stored data and are left out.
\<close>

subsection \<open>Python values, exceptions, dates\<close>

type_synonym bytes = string

text \<open>
  What \<^verbatim>\<open>json.loads\<close> can return. \<open>PyNone\<close> is Python's \<^verbatim>\<open>None\<close>, which \<^verbatim>\<open>read_data\<close>
  also returns when reading fails. A float is kept as its 64 bits (IEEE 754 binary64).
\<close>

datatype pyval =
    PyNone
  | PyBool bool
  | PyInt int
  | PyFloat "64 word"
  | PyStr string
  | PyList "pyval list"
  | PyDict "(string \<times> pyval) list"

datatype exn =
  FileNotFoundError | IsADirectoryError | PermissionError | TypeError | ValueError | KeyError

text \<open>The outcome of a call: it raises, or it returns a value.\<close>

datatype 'a outcome = Raises exn | Returns 'a

text \<open>
  A \<^verbatim>\<open>datetime\<close>: naive (microseconds since a fixed origin) or aware of a time zone.
  \<^verbatim>\<open>datetime.now()\<close> is naive.
\<close>

datatype datetime = Naive int | Aware int

text \<open>The standard-library functions the program calls; \<open>None\<close> means that the call raises.\<close>

record pylib =
  json_dumps :: "pyval \<Rightarrow> bytes option"
  json_loads :: "bytes \<Rightarrow> pyval option"
  gzip_compress :: "int \<Rightarrow> bytes \<Rightarrow> bytes option"
  gzip_decompress :: "bytes \<Rightarrow> bytes option"
  fromisoformat :: "string \<Rightarrow> datetime option"

text \<open>\<^verbatim>\<open>bool(v)\<close>, as \<^verbatim>\<open>not v\<close> and \<^verbatim>\<open>if v:\<close> use it.\<close>

fun truthy :: "pyval \<Rightarrow> bool" where
  "truthy PyNone = False"
| "truthy (PyBool b) = b"
| "truthy (PyInt i) = (i \<noteq> 0)"
| "truthy (PyFloat w) = (w \<noteq> 0 \<and> w \<noteq> 0x8000000000000000)"
| "truthy (PyStr s) = (s \<noteq> [])"
| "truthy (PyList xs) = (xs \<noteq> [])"
| "truthy (PyDict kvs) = (kvs \<noteq> [])"

text \<open>\<^verbatim>\<open>key in v\<close> for a string \<open>key\<close>: a key of a dict, an element of a list, a substring of a
  string; any other value is not iterable.\<close>

fun py_in :: "string \<Rightarrow> pyval \<Rightarrow> exn + bool" where
  "py_in key (PyDict kvs) = Inr (map_of kvs key \<noteq> None)"
| "py_in key (PyList xs) = Inr (List.member xs (PyStr key))"
| "py_in key (PyStr s) = Inr (sublist key s)"
| "py_in key v = Inl TypeError"

text \<open>\<^verbatim>\<open>v[key]\<close> for a string \<open>key\<close>.\<close>

fun py_getitem :: "pyval \<Rightarrow> string \<Rightarrow> exn + pyval" where
  "py_getitem (PyDict kvs) key = (case map_of kvs key of None \<Rightarrow> Inl KeyError | Some x \<Rightarrow> Inr x)"
| "py_getitem v key = Inl TypeError"

text \<open>\<^verbatim>\<open>datetime.fromisoformat(v)\<close>: the argument must be a string, and must parse.\<close>

fun datetime_fromisoformat :: "pylib \<Rightarrow> pyval \<Rightarrow> exn + datetime" where
  "datetime_fromisoformat lib (PyStr s) =
     (case fromisoformat lib s of None \<Rightarrow> Inl ValueError | Some d \<Rightarrow> Inr d)"
| "datetime_fromisoformat lib v = Inl TypeError"

text \<open>\<^verbatim>\<open>now - invoice_date\<close>, a \<^verbatim>\<open>timedelta\<close> in microseconds; \<open>now\<close> is naive, and an aware
  date cannot be subtracted from it.\<close>

fun datetime_sub :: "int \<Rightarrow> datetime \<Rightarrow> exn + int" where
  "datetime_sub now (Naive t) = Inr (now - t)"
| "datetime_sub now (Aware t) = Inl TypeError"

text \<open>\<^verbatim>\<open>timedelta.days\<close>: the whole days of the difference, rounded towards minus infinity.\<close>

definition timedelta_days :: "int \<Rightarrow> int" where
  "timedelta_days delta = delta div 86400000000"

text \<open>
  \<^verbatim>\<open>(now - invoice_date).days / 30.44\<close>. The quotient is taken in the rationals. The
  program computes it in binary64; the two agree on every comparison made below, because
  no whole number of days brings the quotient closer than 0.009 to 3 or to 12
  (see \<open>age_margin_hot\<close> and \<open>age_margin_cool\<close>), far more than the rounding error.
\<close>

definition age_in_months :: "int \<Rightarrow> rat" where
  "age_in_months delta = of_int (timedelta_days delta) / (3044 / 100)"

subsection \<open>Configuration\<close>

datatype tier = HOT_TIER_PATH | COOL_TIER_PATH | ARCHIVE_TIER_PATH | REHYDRATED_TIER_PATH

definition HOT_TIER_RETENTION_MONTHS :: rat where
  "HOT_TIER_RETENTION_MONTHS = 3"

definition COOL_TIER_RETENTION_MONTHS :: rat where
  "COOL_TIER_RETENTION_MONTHS = 12"

definition COOL_COMPRESSION_LEVEL :: int where
  "COOL_COMPRESSION_LEVEL = 5"

definition ARCHIVE_COMPRESSION_LEVEL :: int where
  "ARCHIVE_COMPRESSION_LEVEL = 9"

subsection \<open>The file system\<close>

datatype entry = File bytes | Dir

type_synonym directory = "(string \<times> entry) list"

type_synonym filesystem = "tier \<Rightarrow> directory option"

type_synonym path = "tier \<times> string"

definition lookup :: "filesystem \<Rightarrow> path \<Rightarrow> entry option" where
  "lookup s p = (case s (fst p) of None \<Rightarrow> None | Some d \<Rightarrow> map_of d (snd p))"

definition os_path_exists :: "filesystem \<Rightarrow> path \<Rightarrow> bool" where
  "os_path_exists s p = (lookup s p \<noteq> None)"

text \<open>
  \<^verbatim>\<open>os.listdir(tier)\<close>: the names in the directory. The order in which the operating
  system lists them is not specified; here it is the order of the association list. The
  facts proved about the two loops below hold for every list of names.
\<close>

definition os_listdir :: "tier \<Rightarrow> filesystem \<Rightarrow> exn + string list" where
  "os_listdir t s = (case s t of None \<Rightarrow> Inl FileNotFoundError | Some d \<Rightarrow> Inr (map fst d))"

text \<open>\<^verbatim>\<open>open(p, 'rb')\<close> followed by \<^verbatim>\<open>f.read()\<close>.\<close>

definition open_rb :: "filesystem \<Rightarrow> path \<Rightarrow> exn + bytes" where
  "open_rb s p =
     (case lookup s p of
        None \<Rightarrow> Inl FileNotFoundError
      | Some Dir \<Rightarrow> Inl IsADirectoryError
      | Some (File b) \<Rightarrow> Inr b)"

text \<open>Setting the bytes of an entry of an existing directory.\<close>

definition put :: "path \<Rightarrow> bytes \<Rightarrow> filesystem \<Rightarrow> filesystem" where
  "put p b s =
     (case s (fst p) of
        None \<Rightarrow> s
      | Some d \<Rightarrow> s(fst p := Some (AList.update (snd p) (File b) d)))"

text \<open>\<^verbatim>\<open>open(p, 'wb')\<close>: creates the file, or truncates the one that is there.\<close>

definition open_wb :: "path \<Rightarrow> filesystem \<Rightarrow> exn + filesystem" where
  "open_wb p s =
     (case s (fst p) of
        None \<Rightarrow> Inl FileNotFoundError
      | Some d \<Rightarrow>
          (case map_of d (snd p) of
             Some Dir \<Rightarrow> Inl IsADirectoryError
           | _ \<Rightarrow> Inr (put p [] s)))"

text \<open>\<^verbatim>\<open>os.remove(p)\<close> where the operating system permits the removal; a refusal is added by
  \<open>os_remove_perm\<close> below.\<close>

definition os_remove :: "path \<Rightarrow> filesystem \<Rightarrow> exn + filesystem" where
  "os_remove p s =
     (case s (fst p) of
        None \<Rightarrow> Inl FileNotFoundError
      | Some d \<Rightarrow>
          (case map_of d (snd p) of
             None \<Rightarrow> Inl FileNotFoundError
           | Some Dir \<Rightarrow> Inl IsADirectoryError
           | Some (File b) \<Rightarrow> Inr (s(fst p := Some (AList.delete (snd p) d)))))"

text \<open>\<^verbatim>\<open>shutil.copyfile(src, dst)\<close>: opens the source for reading, then the destination for
  writing, and copies the bytes.\<close>

definition shutil_copyfile :: "path \<Rightarrow> path \<Rightarrow> filesystem \<Rightarrow> exn + filesystem" where
  "shutil_copyfile src dst s =
     (case open_rb s src of
        Inl e \<Rightarrow> Inl e
      | Inr b \<Rightarrow> (case open_wb dst s of Inl e \<Rightarrow> Inl e | Inr s1 \<Rightarrow> Inr (put dst b s1)))"

subsection \<open>Helper functions of the program\<close>

definition get_file_path :: "tier \<Rightarrow> string \<Rightarrow> bool \<Rightarrow> path" where
  "get_file_path tier_path filename compressed =
     (if compressed then (tier_path, filename @ ''.gz'') else (tier_path, filename))"

text \<open>
  \<^verbatim>\<open>write_data\<close> catches every exception and only prints it, so it always returns, with the
  file system as the failed attempt left it. \<^verbatim>\<open>gzip.open\<close> opens (and truncates) the file
  before it hands the level to \<^verbatim>\<open>zlib\<close>, which may refuse it.
\<close>

definition write_data :: "pylib \<Rightarrow> path \<Rightarrow> pyval \<Rightarrow> int option \<Rightarrow> filesystem \<Rightarrow> filesystem" where
  "write_data lib file_path data compress_level s =
     (case json_dumps lib data of
        None \<Rightarrow> s
      | Some json_data \<Rightarrow>
          (case compress_level of
             Some level \<Rightarrow>
               (case open_wb file_path s of
                  Inl e \<Rightarrow> s
                | Inr s1 \<Rightarrow>
                    (case gzip_compress lib level json_data of
                       None \<Rightarrow> s1
                     | Some z \<Rightarrow> put file_path z s1))
           | None \<Rightarrow>
               (case open_wb file_path s of
                  Inl e \<Rightarrow> s
                | Inr s1 \<Rightarrow> put file_path json_data s1)))"

text \<open>\<^verbatim>\<open>read_data\<close> returns \<^verbatim>\<open>None\<close> for every exception.\<close>

definition read_data :: "pylib \<Rightarrow> path \<Rightarrow> bool \<Rightarrow> filesystem \<Rightarrow> pyval" where
  "read_data lib file_path compressed s =
     (case open_rb s file_path of
        Inl e \<Rightarrow> PyNone
      | Inr raw \<Rightarrow>
          (case (if compressed then gzip_decompress lib raw else Some raw) of
             None \<Rightarrow> PyNone
           | Some content \<Rightarrow>
               (case json_loads lib content of None \<Rightarrow> PyNone | Some v \<Rightarrow> v)))"

subsection \<open>The transition pass\<close>

text \<open>
  Lines 114 to 119 and 144 to 149 of the source are the same code: the validity check of
  the record, the parse of its \<^verbatim>\<open>invoice_date\<close> and the age. \<open>Inr None\<close> is the
  \<^verbatim>\<open>continue\<close> of the validity check, \<open>Inl e\<close> an exception raised inside the \<^verbatim>\<open>try\<close>.
\<close>

definition record_age :: "pylib \<Rightarrow> int \<Rightarrow> pyval \<Rightarrow> exn + rat option" where
  "record_age lib now record_data =
     (if \<not> truthy record_data then Inr None
      else
        (case py_in ''invoice_date'' record_data of
           Inl e \<Rightarrow> Inl e
         | Inr False \<Rightarrow> Inr None
         | Inr True \<Rightarrow>
             (case py_getitem record_data ''invoice_date'' of
                Inl e \<Rightarrow> Inl e
              | Inr v \<Rightarrow>
                  (case datetime_fromisoformat lib v of
                     Inl e \<Rightarrow> Inl e
                   | Inr invoice_date \<Rightarrow>
                       (case datetime_sub now invoice_date of
                          Inl e \<Rightarrow> Inl e
                        | Inr delta \<Rightarrow> Inr (Some (age_in_months delta)))))))"

text \<open>The body of the first loop (lines 106 to 131), for one name of the listing.\<close>

definition hot_step :: "pylib \<Rightarrow> int \<Rightarrow> string \<Rightarrow> filesystem \<Rightarrow> filesystem" where
  "hot_step lib now filename s =
     (if \<not> suffix ''.json'' filename then s
      else
        (let file_path = get_file_path HOT_TIER_PATH filename False;
             record_data = read_data lib file_path False s
         in case record_age lib now record_data of
              Inl e \<Rightarrow> s
            | Inr None \<Rightarrow> s
            | Inr (Some age) \<Rightarrow>
                if age \<ge> HOT_TIER_RETENTION_MONTHS then
                  (let cool_file_path = get_file_path COOL_TIER_PATH filename True;
                       s1 = write_data lib cool_file_path record_data (Some COOL_COMPRESSION_LEVEL) s
                   in case os_remove file_path s1 of Inl e \<Rightarrow> s1 | Inr s2 \<Rightarrow> s2)
                else s))"

text \<open>\<^verbatim>\<open>filename_gz.replace('.gz', '')\<close>: every occurrence of \<^verbatim>\<open>.gz\<close> is removed, from left to
  right, not only the one at the end.\<close>

fun replace_gz :: "string \<Rightarrow> string" where
  "replace_gz (a # b # c # rest) =
     (if a = CHR ''.'' \<and> b = CHR ''g'' \<and> c = CHR ''z'' then replace_gz rest
      else a # replace_gz (b # c # rest))"
| "replace_gz cs = cs"

text \<open>The body of the second loop (lines 136 to 161).\<close>

definition cool_step :: "pylib \<Rightarrow> int \<Rightarrow> string \<Rightarrow> filesystem \<Rightarrow> filesystem" where
  "cool_step lib now filename_gz s =
     (if \<not> suffix ''.json.gz'' filename_gz then s
      else
        (let original_filename = replace_gz filename_gz;
             file_path_cool = get_file_path COOL_TIER_PATH original_filename True;
             record_data = read_data lib file_path_cool True s
         in case record_age lib now record_data of
              Inl e \<Rightarrow> s
            | Inr None \<Rightarrow> s
            | Inr (Some age) \<Rightarrow>
                if age \<ge> COOL_TIER_RETENTION_MONTHS then
                  (let archive_file_path = get_file_path ARCHIVE_TIER_PATH original_filename True;
                       s1 = write_data lib archive_file_path record_data
                              (Some ARCHIVE_COMPRESSION_LEVEL) s
                   in case os_remove file_path_cool s1 of Inl e \<Rightarrow> s1 | Inr s2 \<Rightarrow> s2)
                else s))"

text \<open>
  \<^verbatim>\<open>manage_data_tiers\<close>: each loop runs over the listing taken when it starts. The two
  \<^verbatim>\<open>os.listdir\<close> calls are outside every \<^verbatim>\<open>try\<close>, so a missing directory ends the pass with
  an exception; the file system is returned as the pass left it.
\<close>

definition manage_data_tiers :: "pylib \<Rightarrow> int \<Rightarrow> filesystem \<Rightarrow> unit outcome \<times> filesystem" where
  "manage_data_tiers lib now s =
     (case os_listdir HOT_TIER_PATH s of
        Inl e \<Rightarrow> (Raises e, s)
      | Inr hot_listing \<Rightarrow>
          (let s1 = fold (hot_step lib now) hot_listing s
           in case os_listdir COOL_TIER_PATH s1 of
                Inl e \<Rightarrow> (Raises e, s1)
              | Inr cool_listing \<Rightarrow> (Returns (), fold (cool_step lib now) cool_listing s1)))"

subsection \<open>Retrieval\<close>

text \<open>
  \<^verbatim>\<open>retrieve_data\<close>. The rehydration delay (5 seconds with \<^verbatim>\<open>high_priority\<close>, 15 without)
  changes nothing in the file system, so \<open>high_priority\<close> does not occur on the right.
\<close>

definition retrieve_data :: "pylib \<Rightarrow> string \<Rightarrow> bool \<Rightarrow> filesystem \<Rightarrow> pyval outcome \<times> filesystem" where
  "retrieve_data lib record_id high_priority s =
     (let filename = record_id @ ''.json'';
          file_path_hot = get_file_path HOT_TIER_PATH filename False;
          file_path_cool = get_file_path COOL_TIER_PATH filename True;
          file_path_archive = get_file_path ARCHIVE_TIER_PATH filename True;
          rehydrated_path = (REHYDRATED_TIER_PATH, filename);
          rehydrated_gz = (REHYDRATED_TIER_PATH, filename @ ''.gz'')
      in if os_path_exists s file_path_hot then
           (Returns (read_data lib file_path_hot False s), s)
         else if os_path_exists s file_path_cool then
           (Returns (read_data lib file_path_cool True s), s)
         else if os_path_exists s file_path_archive then
           (case shutil_copyfile file_path_archive rehydrated_gz s of
              Inl e \<Rightarrow> (Returns PyNone, s)
            | Inr s1 \<Rightarrow>
                (let data = read_data lib rehydrated_gz True s1
                 in case os_remove rehydrated_gz s1 of
                      Inl e \<Rightarrow> (Returns PyNone, s1)
                    | Inr s2 \<Rightarrow>
                        if truthy data then (Returns data, write_data lib rehydrated_path data None s2)
                        else (Returns PyNone, s2)))
         else (Returns PyNone, s))"

subsection \<open>The transition pass when a removal is refused\<close>

text \<open>
  \<^verbatim>\<open>os.remove\<close> can raise for a regular file that exists: the directory is read-only, or
  it is sticky and the file belongs to another user. Such a file can still be read.
  \<open>denied p\<close> says that the operating system refuses to remove \<open>p\<close>.
\<close>

definition os_remove_perm :: "(path \<Rightarrow> bool) \<Rightarrow> path \<Rightarrow> filesystem \<Rightarrow> exn + filesystem" where
  "os_remove_perm denied p s =
     (case os_remove p s of
        Inl e \<Rightarrow> Inl e
      | Inr s' \<Rightarrow> if denied p then Inl PermissionError else Inr s')"

text \<open>
  The two loop bodies and the pass with this \<^verbatim>\<open>os.remove\<close>. They are the functions above
  line by line; the \<^verbatim>\<open>except\<close> of lines 130 and 160 now also catches the refusal, after
  \<^verbatim>\<open>write_data\<close> has run. With nothing denied they are the functions above
  (\<open>manage_data_tiers_perm_nothing_denied\<close>).
\<close>

definition hot_step_perm ::
  "(path \<Rightarrow> bool) \<Rightarrow> pylib \<Rightarrow> int \<Rightarrow> string \<Rightarrow> filesystem \<Rightarrow> filesystem" where
  "hot_step_perm denied lib now filename s =
     (if \<not> suffix ''.json'' filename then s
      else
        (let file_path = get_file_path HOT_TIER_PATH filename False;
             record_data = read_data lib file_path False s
         in case record_age lib now record_data of
              Inl e \<Rightarrow> s
            | Inr None \<Rightarrow> s
            | Inr (Some age) \<Rightarrow>
                if age \<ge> HOT_TIER_RETENTION_MONTHS then
                  (let cool_file_path = get_file_path COOL_TIER_PATH filename True;
                       s1 = write_data lib cool_file_path record_data (Some COOL_COMPRESSION_LEVEL) s
                   in case os_remove_perm denied file_path s1 of Inl e \<Rightarrow> s1 | Inr s2 \<Rightarrow> s2)
                else s))"

definition cool_step_perm ::
  "(path \<Rightarrow> bool) \<Rightarrow> pylib \<Rightarrow> int \<Rightarrow> string \<Rightarrow> filesystem \<Rightarrow> filesystem" where
  "cool_step_perm denied lib now filename_gz s =
     (if \<not> suffix ''.json.gz'' filename_gz then s
      else
        (let original_filename = replace_gz filename_gz;
             file_path_cool = get_file_path COOL_TIER_PATH original_filename True;
             record_data = read_data lib file_path_cool True s
         in case record_age lib now record_data of
              Inl e \<Rightarrow> s
            | Inr None \<Rightarrow> s
            | Inr (Some age) \<Rightarrow>
                if age \<ge> COOL_TIER_RETENTION_MONTHS then
                  (let archive_file_path = get_file_path ARCHIVE_TIER_PATH original_filename True;
                       s1 = write_data lib archive_file_path record_data
                              (Some ARCHIVE_COMPRESSION_LEVEL) s
                   in case os_remove_perm denied file_path_cool s1 of Inl e \<Rightarrow> s1 | Inr s2 \<Rightarrow> s2)
                else s))"

definition manage_data_tiers_perm ::
  "(path \<Rightarrow> bool) \<Rightarrow> pylib \<Rightarrow> int \<Rightarrow> filesystem \<Rightarrow> unit outcome \<times> filesystem" where
  "manage_data_tiers_perm denied lib now s =
     (case os_listdir HOT_TIER_PATH s of
        Inl e \<Rightarrow> (Raises e, s)
      | Inr hot_listing \<Rightarrow>
          (let s1 = fold (hot_step_perm denied lib now) hot_listing s
           in case os_listdir COOL_TIER_PATH s1 of
                Inl e \<Rightarrow> (Raises e, s1)
              | Inr cool_listing \<Rightarrow>
                  (Returns (), fold (cool_step_perm denied lib now) cool_listing s1)))"


section \<open>Notions used by the statements\<close>

subsection \<open>When a step moves a record\<close>

text \<open>
  The condition under which the body of the first loop reaches its \<^verbatim>\<open>write_data\<close> and
  \<^verbatim>\<open>os.remove\<close> for a name: the name ends in \<^verbatim>\<open>.json\<close>, the file reads as a record whose
  age can be computed, and the age is at least the retention of the hot tier.
\<close>

definition hot_movable :: "pylib \<Rightarrow> int \<Rightarrow> filesystem \<Rightarrow> string \<Rightarrow> bool" where
  "hot_movable lib now s filename \<longleftrightarrow>
     suffix ''.json'' filename \<and>
     (case record_age lib now (read_data lib (HOT_TIER_PATH, filename) False s) of
        Inr (Some age) \<Rightarrow> age \<ge> HOT_TIER_RETENTION_MONTHS
      | _ \<Rightarrow> False)"

text \<open>The same for the second loop; the file it reads is the one named by \<open>replace_gz\<close>.\<close>

definition cool_movable :: "pylib \<Rightarrow> int \<Rightarrow> filesystem \<Rightarrow> string \<Rightarrow> bool" where
  "cool_movable lib now s filename_gz \<longleftrightarrow>
     suffix ''.json.gz'' filename_gz \<and>
     (case record_age lib now
             (read_data lib (COOL_TIER_PATH, replace_gz filename_gz @ ''.gz'') True s) of
        Inr (Some age) \<Rightarrow> age \<ge> COOL_TIER_RETENTION_MONTHS
      | _ \<Rightarrow> False)"

subsection \<open>The invoice date the pass reads from a record\<close>

text \<open>
  The date that lines 114 to 118 get from a record: the record is truthy, has the key
  \<^verbatim>\<open>invoice_date\<close>, and its value parses to a naive \<^verbatim>\<open>datetime\<close>. \<open>None\<close> covers every
  other case, in which the pass skips the record.
\<close>

definition invoice_date_of :: "pylib \<Rightarrow> pyval \<Rightarrow> int option" where
  "invoice_date_of lib record_data =
     (if \<not> truthy record_data then None
      else
        (case py_in ''invoice_date'' record_data of
           Inr True \<Rightarrow>
             (case py_getitem record_data ''invoice_date'' of
                Inr v \<Rightarrow>
                  (case datetime_fromisoformat lib v of Inr (Naive t) \<Rightarrow> Some t | _ \<Rightarrow> None)
              | Inl e \<Rightarrow> None)
         | _ \<Rightarrow> None))"

subsection \<open>Presence of a record identifier in a tier\<close>

text \<open>A record identifier is present in a tier when the path that \<^verbatim>\<open>retrieve_data\<close> probes
  for it in that tier exists.\<close>

definition in_hot :: "filesystem \<Rightarrow> string \<Rightarrow> bool" where
  "in_hot s record_id =
     os_path_exists s (get_file_path HOT_TIER_PATH (record_id @ ''.json'') False)"

definition in_cool :: "filesystem \<Rightarrow> string \<Rightarrow> bool" where
  "in_cool s record_id =
     os_path_exists s (get_file_path COOL_TIER_PATH (record_id @ ''.json'') True)"

definition in_archive :: "filesystem \<Rightarrow> string \<Rightarrow> bool" where
  "in_archive s record_id =
     os_path_exists s (get_file_path ARCHIVE_TIER_PATH (record_id @ ''.json'') True)"

definition at_most_one_tier :: "filesystem \<Rightarrow> string \<Rightarrow> bool" where
  "at_most_one_tier s record_id \<longleftrightarrow>
     \<not> (in_hot s record_id \<and> in_cool s record_id) \<and>
     \<not> (in_hot s record_id \<and> in_archive s record_id) \<and>
     \<not> (in_cool s record_id \<and> in_archive s record_id)"

subsection \<open>The age as the specification words it\<close>

text \<open>
  The specification's \<^verbatim>\<open>age_months\<close>: the time between \<^verbatim>\<open>issued_at\<close> and now in days,
  fractions of a day included, divided by 30.44. This definition follows the
  specification's words, not the source; it is compared with \<open>age_in_months\<close> below.
\<close>

definition spec_age_months :: "int \<Rightarrow> rat" where
  "spec_age_months delta = of_int delta / 86400000000 / (3044 / 100)"

subsection \<open>Concrete data for the examples\<close>

text \<open>
  Two records, and the text \<^verbatim>\<open>json.dumps(record, indent=2)\<close> gives for each.
\<close>

definition R1 :: pyval where
  "R1 = PyDict [(''record_id'', PyStr ''BILL-00001''),
                (''invoice_date'', PyStr ''2024-01-01T00:00:00'')]"

definition R2 :: pyval where
  "R2 = PyDict [(''record_id'', PyStr ''BILL-00001''),
                (''invoice_date'', PyStr ''2024-01-01T00:00:00''),
                (''description'', PyStr ''second copy'')]"

definition R1_json :: bytes where
  \<open>R1_json = ''{\<newline>  "record_id": "BILL-00001",\<newline>  "invoice_date": "2024-01-01T00:00:00"\<newline>}''\<close>

definition R2_json :: bytes where
  \<open>R2_json = ''{\<newline>  "record_id": "BILL-00001",\<newline>  "invoice_date": "2024-01-01T00:00:00",\<newline>  "description": "second copy"\<newline>}''\<close>

text \<open>
  The examples need one instance of the library. \<open>example_lib\<close> is the library on the
  inputs the examples give it: the JSON text of the two records (any other text stands
  for bytes that do not parse), the one date (with the origin of time at that date), and
  for \<^verbatim>\<open>gzip\<close> a framing that puts the two magic bytes of a gzip stream before the
  payload, for the levels \<^verbatim>\<open>zlib\<close> accepts. The byte format of a real gzip stream is not
  modelled; no statement depends on it.
\<close>

definition gz_frame :: "bytes \<Rightarrow> bytes" where
  "gz_frame b = CHR 0x1F # CHR 0x8B # b"

definition example_lib :: pylib where
  "example_lib = \<lparr>
     json_dumps = (\<lambda>v. if v = R1 then Some R1_json else if v = R2 then Some R2_json else None),
     json_loads = (\<lambda>b. if b = R1_json then Some R1 else if b = R2_json then Some R2 else None),
     gzip_compress = (\<lambda>level b. if -1 \<le> level \<and> level \<le> 9 then Some (gz_frame b) else None),
     gzip_decompress = (\<lambda>z. case z of
         [] \<Rightarrow> Some []
       | a # b # rest \<Rightarrow> if a = CHR 0x1F \<and> b = CHR 0x8B then Some rest else None
       | _ \<Rightarrow> None),
     fromisoformat = (\<lambda>s. if s = ''2024-01-01T00:00:00'' then Some (Naive 0) else None) \<rparr>"

text \<open>A number of days, in microseconds.\<close>

definition days :: "int \<Rightarrow> int" where
  "days n = n * 86400000000"

text \<open>The four directories exist and are empty.\<close>

definition empty_fs :: filesystem where
  "empty_fs = (\<lambda>t. Some [])"

text \<open>Record \<open>R1\<close> in exactly one tier.\<close>

definition fs_hot_only :: filesystem where
  "fs_hot_only = empty_fs(HOT_TIER_PATH := Some [(''BILL-00001.json'', File R1_json)])"

definition fs_cooled :: filesystem where
  "fs_cooled = empty_fs(COOL_TIER_PATH := Some [(''BILL-00001.json.gz'', File (gz_frame R1_json))])"

definition fs_archived :: filesystem where
  "fs_archived =
     empty_fs(ARCHIVE_TIER_PATH := Some [(''BILL-00001.json.gz'', File (gz_frame R1_json))])"

text \<open>\<open>R1\<close> in the hot tier, and a directory where the cool tier would hold its copy.\<close>

definition fs_blocked :: filesystem where
  "fs_blocked = empty_fs
     (HOT_TIER_PATH := Some [(''BILL-00001.json'', File R1_json)],
      COOL_TIER_PATH := Some [(''BILL-00001.json.gz'', Dir)])"

definition fs_lost :: filesystem where
  "fs_lost = empty_fs(COOL_TIER_PATH := Some [(''BILL-00001.json.gz'', Dir)])"

text \<open>The identifier \<^verbatim>\<open>BILL-00001\<close> in two tiers: \<open>R1\<close> in hot, \<open>R2\<close> in cool.\<close>

definition fs_both :: filesystem where
  "fs_both = empty_fs
     (HOT_TIER_PATH := Some [(''BILL-00001.json'', File R1_json)],
      COOL_TIER_PATH := Some [(''BILL-00001.json.gz'', File (gz_frame R2_json))])"

text \<open>The same record in hot and in cool: what a pass leaves when it has written the cool
  copy and the removal of the hot file was refused.\<close>

definition fs_two_copies :: filesystem where
  "fs_two_copies = empty_fs
     (HOT_TIER_PATH := Some [(''BILL-00001.json'', File R1_json)],
      COOL_TIER_PATH := Some [(''BILL-00001.json.gz'', File (gz_frame R1_json))])"

text \<open>A hot file whose bytes are not JSON.\<close>

definition fs_corrupt :: filesystem where
  "fs_corrupt = empty_fs(HOT_TIER_PATH := Some [(''BILL-00001.json'', File ''not json'')])"

text \<open>An archive file whose bytes are not a gzip stream.\<close>

definition fs_archive_corrupt :: filesystem where
  "fs_archive_corrupt =
     empty_fs(ARCHIVE_TIER_PATH := Some [(''BILL-00001.json.gz'', File ''not gzip'')])"

text \<open>\<open>R1\<close> in the archive; in the rehydrated directory, nothing, a directory under the
  name of the cache entry, and the cache entry.\<close>

definition fs_cache_blocked :: filesystem where
  "fs_cache_blocked = empty_fs
     (ARCHIVE_TIER_PATH := Some [(''BILL-00001.json.gz'', File (gz_frame R1_json))],
      REHYDRATED_TIER_PATH := Some [(''BILL-00001.json'', Dir)])"

definition fs_rehydrated :: filesystem where
  "fs_rehydrated = empty_fs
     (ARCHIVE_TIER_PATH := Some [(''BILL-00001.json.gz'', File (gz_frame R1_json))],
      REHYDRATED_TIER_PATH := Some [(''BILL-00001.json'', File R1_json)])"

section \<open>Evaluation of the examples\<close>

lemmas ex_defs = R1_def R2_def R1_json_def R2_json_def gz_frame_def example_lib_def days_def
  empty_fs_def fs_hot_only_def fs_cooled_def fs_archived_def fs_blocked_def fs_lost_def
  fs_both_def fs_corrupt_def fs_cache_blocked_def fs_rehydrated_def fs_two_copies_def
  fs_archive_corrupt_def

lemmas model_defs = manage_data_tiers_def os_listdir_def hot_step_def cool_step_def
  get_file_path_def read_data_def write_data_def open_rb_def open_wb_def put_def os_remove_def
  lookup_def record_age_def age_in_months_def timedelta_days_def
  HOT_TIER_RETENTION_MONTHS_def COOL_TIER_RETENTION_MONTHS_def
  COOL_COMPRESSION_LEVEL_def ARCHIVE_COMPRESSION_LEVEL_def Let_def
  retrieve_data_def os_path_exists_def shutil_copyfile_def suffix_to_prefix

lemmas perm_defs = manage_data_tiers_perm_def hot_step_perm_def cool_step_perm_def
  os_remove_perm_def

lemmas in_tier_defs = in_hot_def in_cool_def in_archive_def os_path_exists_def get_file_path_def

section \<open>Basic facts about the file system and the helpers\<close>

lemma lookup_put:
  "lookup (put p b s) q = (if q = p \<and> s (fst p) \<noteq> None then Some (File b) else lookup s q)"
  by (cases p; cases q) (auto simp: lookup_def put_def update_conv' split: option.splits)

lemma put_dir: "put p b s t = None \<longleftrightarrow> s t = None"
  by (auto simp: put_def split: option.splits)

lemma put_other: "t \<noteq> fst p \<Longrightarrow> put p b s t = s t"
  by (auto simp: put_def split: option.splits)

lemma open_wb_Inr:
  assumes "open_wb p s = Inr s1"
  shows "s1 = put p [] s" and "s (fst p) \<noteq> None" and "lookup s p \<noteq> Some Dir"
  using assms by (auto simp: open_wb_def lookup_def split: option.splits entry.splits)

lemma open_wb_Inl:
  assumes "open_wb p s = Inl e"
  shows "s (fst p) = None \<or> lookup s p = Some Dir"
  using assms by (auto simp: open_wb_def lookup_def split: option.splits entry.splits)

lemma open_wb_ok:
  "s (fst p) \<noteq> None \<Longrightarrow> lookup s p \<noteq> Some Dir \<Longrightarrow> open_wb p s = Inr (put p [] s)"
  by (auto simp: open_wb_def lookup_def split: option.splits entry.splits)

lemma os_remove_Inr:
  assumes "os_remove p s = Inr s'"
  shows "lookup s' q = (if q = p then None else lookup s q)"
    and "\<exists>b. lookup s p = Some (File b)"
    and "t \<noteq> fst p \<Longrightarrow> s' t = s t"
    and "s' t = None \<longleftrightarrow> s t = None"
  using assms
  by (cases p; cases q;
      auto simp: os_remove_def lookup_def delete_conv' split: option.splits entry.splits if_splits)+

lemma os_remove_ok:
  "lookup s p = Some (File b) \<Longrightarrow> \<exists>s'. os_remove p s = Inr s'"
  by (auto simp: os_remove_def lookup_def split: option.splits entry.splits)

lemma os_remove_listing:
  assumes "os_remove (t, n) s = Inr s'" and "s t = Some d"
  shows "s' t = Some (AList.delete n d)"
  using assms by (auto simp: os_remove_def split: option.splits entry.splits)

lemma write_data_other:
  "q \<noteq> p \<Longrightarrow> lookup (write_data lib p v l s) q = lookup s q"
  by (auto simp: write_data_def lookup_put dest!: open_wb_Inr(1) split: option.splits sum.splits)

lemma write_data_tier:
  "t \<noteq> fst p \<Longrightarrow> write_data lib p v l s t = s t"
  by (auto simp: write_data_def put_other dest!: open_wb_Inr(1) split: option.splits sum.splits)

lemma write_data_dir:
  "write_data lib p v l s t = None \<longleftrightarrow> s t = None"
  by (auto simp: write_data_def put_dir dest!: open_wb_Inr(1) split: option.splits sum.splits)

lemma write_data_exists:
  "lookup s q \<noteq> None \<Longrightarrow> lookup (write_data lib p v l s) q \<noteq> None"
  by (auto simp: write_data_def lookup_put dest!: open_wb_Inr(1) split: option.splits sum.splits)

lemma read_data_cong:
  "lookup s p = lookup s' p \<Longrightarrow> read_data lib p c s = read_data lib p c s'"
  by (simp add: read_data_def open_rb_def)

lemma read_data_absent:
  "lookup s p = None \<Longrightarrow> read_data lib p c s = PyNone"
  by (simp add: read_data_def open_rb_def)

lemma read_data_File:
  "read_data lib p c s \<noteq> PyNone \<Longrightarrow> \<exists>b. lookup s p = Some (File b)"
  by (auto simp: read_data_def open_rb_def split: option.splits entry.splits)

lemma record_age_None: "record_age lib now PyNone = Inr None"
  by (simp add: record_age_def)

section \<open>One step of each loop\<close>

lemma hot_step_idle: "\<not> hot_movable lib now s f \<Longrightarrow> hot_step lib now f s = s"
  by (auto simp: hot_movable_def hot_step_def get_file_path_def Let_def split: sum.splits option.splits)

lemma cool_step_idle: "\<not> cool_movable lib now s f \<Longrightarrow> cool_step lib now f s = s"
  by (auto simp: cool_movable_def cool_step_def get_file_path_def Let_def split: sum.splits option.splits)

lemma movable_File:
  assumes "record_age lib now (read_data lib p c s) = Inr (Some age)"
  shows "\<exists>b. lookup s p = Some (File b)"
proof -
  have "read_data lib p c s \<noteq> PyNone"
    using assms by (auto simp: record_age_None)
  then show ?thesis by (rule read_data_File)
qed

lemma hot_step_moves:
  assumes "hot_movable lib now s f"
  shows "\<exists>s2. os_remove (HOT_TIER_PATH, f)
                 (write_data lib (COOL_TIER_PATH, f @ ''.gz'')
                    (read_data lib (HOT_TIER_PATH, f) False s) (Some COOL_COMPRESSION_LEVEL) s) = Inr s2
              \<and> hot_step lib now f s = s2"
proof -
  let ?s1 = "write_data lib (COOL_TIER_PATH, f @ ''.gz'')
                    (read_data lib (HOT_TIER_PATH, f) False s) (Some COOL_COMPRESSION_LEVEL) s"
  from assms obtain age where
    a: "record_age lib now (read_data lib (HOT_TIER_PATH, f) False s) = Inr (Some age)"
    and b: "age \<ge> HOT_TIER_RETENTION_MONTHS" and c: "suffix ''.json'' f"
    by (auto simp: hot_movable_def split: sum.splits option.splits)
  from movable_File[OF a] obtain bs where "lookup s (HOT_TIER_PATH, f) = Some (File bs)" by blast
  then have "lookup ?s1 (HOT_TIER_PATH, f) = Some (File bs)"
    by (simp add: write_data_other)
  then obtain s2 where r: "os_remove (HOT_TIER_PATH, f) ?s1 = Inr s2"
    using os_remove_ok by blast
  have "hot_step lib now f s = s2"
    using a b c r by (simp add: hot_step_def get_file_path_def Let_def)
  with r show ?thesis by blast
qed

lemma cool_step_moves:
  assumes "cool_movable lib now s f"
  shows "\<exists>s2. os_remove (COOL_TIER_PATH, replace_gz f @ ''.gz'')
                 (write_data lib (ARCHIVE_TIER_PATH, replace_gz f @ ''.gz'')
                    (read_data lib (COOL_TIER_PATH, replace_gz f @ ''.gz'') True s)
                    (Some ARCHIVE_COMPRESSION_LEVEL) s) = Inr s2
              \<and> cool_step lib now f s = s2"
proof -
  let ?p = "(COOL_TIER_PATH, replace_gz f @ ''.gz'')"
  let ?s1 = "write_data lib (ARCHIVE_TIER_PATH, replace_gz f @ ''.gz'')
                    (read_data lib ?p True s) (Some ARCHIVE_COMPRESSION_LEVEL) s"
  from assms obtain age where
    a: "record_age lib now (read_data lib ?p True s) = Inr (Some age)"
    and b: "age \<ge> COOL_TIER_RETENTION_MONTHS" and c: "suffix ''.json.gz'' f"
    by (auto simp: cool_movable_def split: sum.splits option.splits)
  from movable_File[OF a] obtain bs where "lookup s ?p = Some (File bs)" by blast
  then have "lookup ?s1 ?p = Some (File bs)"
    by (simp add: write_data_other)
  then obtain s2 where r: "os_remove ?p ?s1 = Inr s2"
    using os_remove_ok by blast
  have "cool_step lib now f s = s2"
    using a b c r by (simp add: cool_step_def get_file_path_def Let_def)
  with r show ?thesis by blast
qed

text \<open>Effect of a step on the entries.\<close>

lemma hot_step_lookup:
  "lookup (hot_step lib now f s) q =
     (if hot_movable lib now s f then
        (if q = (HOT_TIER_PATH, f) then None
         else lookup (write_data lib (COOL_TIER_PATH, f @ ''.gz'')
                    (read_data lib (HOT_TIER_PATH, f) False s) (Some COOL_COMPRESSION_LEVEL) s) q)
      else lookup s q)"
proof (cases "hot_movable lib now s f")
  case True
  from hot_step_moves[OF True] obtain s2 where
    "os_remove (HOT_TIER_PATH, f)
                 (write_data lib (COOL_TIER_PATH, f @ ''.gz'')
                    (read_data lib (HOT_TIER_PATH, f) False s) (Some COOL_COMPRESSION_LEVEL) s) = Inr s2"
    and "hot_step lib now f s = s2" by blast
  then show ?thesis using True by (simp add: os_remove_Inr(1))
next
  case False
  then show ?thesis by (simp add: hot_step_idle)
qed

lemma cool_step_lookup:
  "lookup (cool_step lib now f s) q =
     (if cool_movable lib now s f then
        (if q = (COOL_TIER_PATH, replace_gz f @ ''.gz'') then None
         else lookup (write_data lib (ARCHIVE_TIER_PATH, replace_gz f @ ''.gz'')
                    (read_data lib (COOL_TIER_PATH, replace_gz f @ ''.gz'') True s)
                    (Some ARCHIVE_COMPRESSION_LEVEL) s) q)
      else lookup s q)"
proof (cases "cool_movable lib now s f")
  case True
  from cool_step_moves[OF True] obtain s2 where
    "os_remove (COOL_TIER_PATH, replace_gz f @ ''.gz'')
                 (write_data lib (ARCHIVE_TIER_PATH, replace_gz f @ ''.gz'')
                    (read_data lib (COOL_TIER_PATH, replace_gz f @ ''.gz'') True s)
                    (Some ARCHIVE_COMPRESSION_LEVEL) s) = Inr s2"
    and "cool_step lib now f s = s2" by blast
  then show ?thesis using True by (simp add: os_remove_Inr(1))
next
  case False
  then show ?thesis by (simp add: cool_step_idle)
qed

lemma hot_step_lookup_hot:
  "lookup (hot_step lib now f s) (HOT_TIER_PATH, g) =
     (if hot_movable lib now s f \<and> g = f then None else lookup s (HOT_TIER_PATH, g))"
  by (simp add: hot_step_lookup write_data_other)

lemma cool_step_lookup_cool:
  "lookup (cool_step lib now f s) (COOL_TIER_PATH, g) =
     (if cool_movable lib now s f \<and> g = replace_gz f @ ''.gz'' then None
      else lookup s (COOL_TIER_PATH, g))"
  by (simp add: cool_step_lookup write_data_other)

lemma hot_movable_cong:
  "lookup s' (HOT_TIER_PATH, f) = lookup s (HOT_TIER_PATH, f) \<Longrightarrow>
   hot_movable lib now s' f = hot_movable lib now s f"
  by (simp add: hot_movable_def read_data_cong[of s' _ s])

lemma cool_movable_cong:
  "lookup s' (COOL_TIER_PATH,  replace_gz f @ ''.gz'') = lookup s (COOL_TIER_PATH,  replace_gz f @ ''.gz'') \<Longrightarrow>
   cool_movable lib now s' f = cool_movable lib now s f"
  by (simp add: cool_movable_def read_data_cong[of s' _ s])

lemma hot_movable_absent:
  "lookup s (HOT_TIER_PATH, f) = None \<Longrightarrow> \<not> hot_movable lib now s f"
  by (simp add: hot_movable_def read_data_absent record_age_None)

lemma cool_movable_absent:
  "lookup s (COOL_TIER_PATH, replace_gz f @ ''.gz'') = None \<Longrightarrow> \<not> cool_movable lib now s f"
  by (simp add: cool_movable_def read_data_absent record_age_None)

lemma hot_step_antitone:
  "hot_movable lib now (hot_step lib now f s) g \<Longrightarrow> hot_movable lib now s g"
proof -
  assume m: "hot_movable lib now (hot_step lib now f s) g"
  then have "lookup (hot_step lib now f s) (HOT_TIER_PATH, g) \<noteq> None"
    using hot_movable_absent by blast
  then have "lookup (hot_step lib now f s) (HOT_TIER_PATH, g) = lookup s (HOT_TIER_PATH, g)"
    by (auto simp: hot_step_lookup_hot split: if_splits)
  then show ?thesis using m hot_movable_cong by blast
qed

lemma cool_step_antitone:
  "cool_movable lib now (cool_step lib now f s) g \<Longrightarrow> cool_movable lib now s g"
proof -
  let ?p = "(COOL_TIER_PATH, replace_gz g @ ''.gz'')"
  assume m: "cool_movable lib now (cool_step lib now f s) g"
  then have "lookup (cool_step lib now f s) ?p \<noteq> None"
    using cool_movable_absent by blast
  then have "lookup (cool_step lib now f s) ?p = lookup s ?p"
    by (auto simp: cool_step_lookup_cool split: if_splits)
  then show ?thesis using m cool_movable_cong by blast
qed

lemma hot_step_done: "\<not> hot_movable lib now (hot_step lib now f s) f"
proof (cases "hot_movable lib now s f")
  case True
  then have "lookup (hot_step lib now f s) (HOT_TIER_PATH, f) = None"
    by (simp add: hot_step_lookup_hot)
  then show ?thesis by (rule hot_movable_absent)
next
  case False
  then show ?thesis by (simp add: hot_step_idle)
qed

lemma cool_step_done: "\<not> cool_movable lib now (cool_step lib now f s) f"
proof (cases "cool_movable lib now s f")
  case True
  then have "lookup (cool_step lib now f s) (COOL_TIER_PATH, replace_gz f @ ''.gz'') = None"
    by (simp add: cool_step_lookup_cool)
  then show ?thesis by (rule cool_movable_absent)
next
  case False
  then show ?thesis by (simp add: cool_step_idle)
qed

lemma hot_loop_antitone:
  "hot_movable lib now (fold (hot_step lib now) fs s) g \<Longrightarrow> hot_movable lib now s g"
  by (induction fs arbitrary: s) (auto dest: hot_step_antitone)

lemma cool_loop_antitone:
  "cool_movable lib now (fold (cool_step lib now) fs s) g \<Longrightarrow> cool_movable lib now s g"
  by (induction fs arbitrary: s) (auto dest: cool_step_antitone)

lemma hot_loop_done:
  "g \<in> set fs \<Longrightarrow> \<not> hot_movable lib now (fold (hot_step lib now) fs s) g"
proof (induction fs arbitrary: s)
  case Nil
  then show ?case by simp
next
  case (Cons f fs)
  show ?case
  proof (cases "g = f")
    case True
    have "\<not> hot_movable lib now (hot_step lib now f s) f" by (rule hot_step_done)
    then have "\<not> hot_movable lib now (fold (hot_step lib now) fs (hot_step lib now f s)) f"
      using hot_loop_antitone by blast
    then show ?thesis using True by simp
  next
    case False
    then show ?thesis using Cons by simp
  qed
qed

lemma cool_loop_done:
  "g \<in> set fs \<Longrightarrow> \<not> cool_movable lib now (fold (cool_step lib now) fs s) g"
proof (induction fs arbitrary: s)
  case Nil
  then show ?case by simp
next
  case (Cons f fs)
  show ?case
  proof (cases "g = f")
    case True
    have "\<not> cool_movable lib now (cool_step lib now f s) f" by (rule cool_step_done)
    then have "\<not> cool_movable lib now (fold (cool_step lib now) fs (cool_step lib now f s)) f"
      using cool_loop_antitone by blast
    then show ?thesis using True by simp
  next
    case False
    then show ?thesis using Cons by simp
  qed
qed

lemma hot_loop_idle:
  "\<forall>f \<in> set fs. \<not> hot_movable lib now s f \<Longrightarrow> fold (hot_step lib now) fs s = s"
  by (induction fs) (auto simp: hot_step_idle)

lemma cool_loop_idle:
  "\<forall>f \<in> set fs. \<not> cool_movable lib now s f \<Longrightarrow> fold (cool_step lib now) fs s = s"
  by (induction fs) (auto simp: cool_step_idle)

lemma hot_step_dir: "hot_step lib now f s t = None \<longleftrightarrow> s t = None"
proof (cases "hot_movable lib now s f")
  case True
  from hot_step_moves[OF True] show ?thesis
    by (auto simp: os_remove_Inr(4) write_data_dir)
next
  case False
  then show ?thesis by (simp add: hot_step_idle)
qed

lemma cool_step_dir: "cool_step lib now f s t = None \<longleftrightarrow> s t = None"
proof (cases "cool_movable lib now s f")
  case True
  from cool_step_moves[OF True] show ?thesis
    by (auto simp: os_remove_Inr(4) write_data_dir)
next
  case False
  then show ?thesis by (simp add: cool_step_idle)
qed

lemma hot_loop_dir: "fold (hot_step lib now) fs s t = None \<longleftrightarrow> s t = None"
  by (induction fs arbitrary: s) (simp_all add: hot_step_dir)

lemma cool_loop_dir: "fold (cool_step lib now) fs s t = None \<longleftrightarrow> s t = None"
  by (induction fs arbitrary: s) (simp_all add: cool_step_dir)

lemma os_listdir_Inr: "os_listdir t s = Inr L \<Longrightarrow> s t \<noteq> None"
  by (auto simp: os_listdir_def split: option.splits)

lemma os_listdir_ok: "s t \<noteq> None \<Longrightarrow> \<exists>L. os_listdir t s = Inr L"
  by (auto simp: os_listdir_def split: option.splits)

lemma os_listdir_mem:
  "os_listdir t s = Inr L \<Longrightarrow> g \<in> set L \<longleftrightarrow> lookup s (t, g) \<noteq> None"
proof -
  assume "os_listdir t s = Inr L"
  then obtain d where d: "s t = Some d" and L: "L = map fst d"
    by (auto simp: os_listdir_def split: option.splits)
  have "g \<in> fst ` set d \<longleftrightarrow> map_of d g \<noteq> None"
    by (simp add: map_of_eq_None_iff)
  then show ?thesis by (simp add: d L lookup_def)
qed

lemma cool_step_lookup_hot:
  "lookup (cool_step lib now f s) (HOT_TIER_PATH, g) = lookup s (HOT_TIER_PATH, g)"
  by (simp add: cool_step_lookup write_data_other)

lemma cool_loop_lookup_hot:
  "lookup (fold (cool_step lib now) fs s) (HOT_TIER_PATH, g) = lookup s (HOT_TIER_PATH, g)"
  by (induction fs arbitrary: s) (simp_all add: cool_step_lookup_hot)

lemma cool_loop_lookup_cool:
  "lookup s (COOL_TIER_PATH, g) = None \<Longrightarrow>
   lookup (fold (cool_step lib now) fs s) (COOL_TIER_PATH, g) = None"
  by (induction fs arbitrary: s) (simp_all add: cool_step_lookup_cool)

lemma hot_loop_settled:
  assumes "os_listdir HOT_TIER_PATH s = Inr L"
  shows "\<not> hot_movable lib now (fold (hot_step lib now) L s) g"
proof (cases "g \<in> set L")
  case True
  then show ?thesis by (rule hot_loop_done)
next
  case False
  then have "lookup s (HOT_TIER_PATH, g) = None"
    using os_listdir_mem[OF assms] by simp
  then have "\<not> hot_movable lib now s g" by (rule hot_movable_absent)
  then show ?thesis using hot_loop_antitone by blast
qed

lemma hot_movable_File:
  "hot_movable lib now s f \<Longrightarrow> \<exists>b. lookup s (HOT_TIER_PATH, f) = Some (File b)"
  by (auto simp: hot_movable_def split: sum.splits option.splits dest: movable_File)

lemma cool_movable_File:
  "cool_movable lib now s f \<Longrightarrow>
   \<exists>b. lookup s (COOL_TIER_PATH, replace_gz f @ ''.gz'') = Some (File b)"
  by (auto simp: cool_movable_def split: sum.splits option.splits dest: movable_File)

lemma hot_step_at_most_one:
  assumes "at_most_one_tier s rid"
  shows "at_most_one_tier (hot_step lib now f s) rid"
proof (cases "hot_movable lib now s f")
  case False
  then show ?thesis using assms by (simp add: hot_step_idle)
next
  case True
  let ?s' = "hot_step lib now f s"
  from hot_movable_File[OF True] obtain b where b: "lookup s (HOT_TIER_PATH, f) = Some (File b)" ..
  have hot: "lookup ?s' (HOT_TIER_PATH, g) = (if g = f then None else lookup s (HOT_TIER_PATH, g))" for g
    using True by (simp add: hot_step_lookup_hot)
  have arch: "lookup ?s' (ARCHIVE_TIER_PATH, g) = lookup s (ARCHIVE_TIER_PATH, g)" for g
    using True by (simp add: hot_step_lookup write_data_other)
  have cool: "lookup ?s' (COOL_TIER_PATH, g) = lookup s (COOL_TIER_PATH, g)" if "g \<noteq> f @ ''.gz''" for g
    using True that by (simp add: hot_step_lookup write_data_other)
  show ?thesis
  proof (cases "rid @ ''.json'' = f")
    case True
    then have "in_hot s rid" using b by (simp add: in_tier_defs)
    then have "\<not> in_archive s rid" using assms by (simp add: at_most_one_tier_def)
    then have "\<not> in_archive ?s' rid" by (simp add: in_tier_defs arch)
    moreover have "\<not> in_hot ?s' rid" using True by (simp add: in_tier_defs hot)
    ultimately show ?thesis by (simp add: at_most_one_tier_def)
  next
    case False
    then have "in_hot ?s' rid = in_hot s rid" "in_cool ?s' rid = in_cool s rid"
      "in_archive ?s' rid = in_archive s rid"
      by (simp_all add: in_tier_defs hot arch cool)
    then show ?thesis using assms by (simp add: at_most_one_tier_def)
  qed
qed

lemma cool_step_at_most_one:
  assumes "at_most_one_tier s rid"
  shows "at_most_one_tier (cool_step lib now f s) rid"
proof (cases "cool_movable lib now s f")
  case False
  then show ?thesis using assms by (simp add: cool_step_idle)
next
  case True
  let ?s' = "cool_step lib now f s"
  let ?p = "replace_gz f @ ''.gz''"
  from cool_movable_File[OF True] obtain b where b: "lookup s (COOL_TIER_PATH, ?p) = Some (File b)" ..
  have cool: "lookup ?s' (COOL_TIER_PATH, g) = (if g = ?p then None else lookup s (COOL_TIER_PATH, g))" for g
    using True by (simp add: cool_step_lookup_cool)
  have hot: "lookup ?s' (HOT_TIER_PATH, g) = lookup s (HOT_TIER_PATH, g)" for g
    by (simp add: cool_step_lookup_hot)
  have arch: "lookup ?s' (ARCHIVE_TIER_PATH, g) = lookup s (ARCHIVE_TIER_PATH, g)" if "g \<noteq> ?p" for g
    using True that by (simp add: cool_step_lookup write_data_other)
  show ?thesis
  proof (cases "rid @ ''.json.gz'' = ?p")
    case True
    then have "in_cool s rid" using b by (simp add: in_tier_defs)
    then have "\<not> in_hot s rid" using assms by (auto simp: at_most_one_tier_def)
    then have "\<not> in_hot ?s' rid" by (simp add: in_tier_defs hot)
    moreover have "\<not> in_cool ?s' rid" using True by (simp add: in_tier_defs cool)
    ultimately show ?thesis by (simp add: at_most_one_tier_def)
  next
    case False
    then have "in_hot ?s' rid = in_hot s rid" "in_cool ?s' rid = in_cool s rid"
      "in_archive ?s' rid = in_archive s rid"
      by (simp_all add: in_tier_defs hot arch cool)
    then show ?thesis using assms by (simp add: at_most_one_tier_def)
  qed
qed

lemma hot_loop_at_most_one:
  "at_most_one_tier s rid \<Longrightarrow> at_most_one_tier (fold (hot_step lib now) fs s) rid"
  by (induction fs arbitrary: s) (simp_all add: hot_step_at_most_one)

lemma cool_loop_at_most_one:
  "at_most_one_tier s rid \<Longrightarrow> at_most_one_tier (fold (cool_step lib now) fs s) rid"
  by (induction fs arbitrary: s) (simp_all add: cool_step_at_most_one)

section \<open>Writing and reading back; a record followed through the loops\<close>

lemma write_data_gz_ok:
  assumes "json_dumps lib v = Some js" and "gzip_compress lib l js = Some z"
    and "s (fst p) \<noteq> None" and "lookup s p \<noteq> Some Dir"
  shows "lookup (write_data lib p v (Some l) s) p = Some (File z)"
proof -
  have "open_wb p s = Inr (put p [] s)" using assms(3,4) by (rule open_wb_ok)
  moreover have "put p [] s (fst p) \<noteq> None" using assms(3) by (simp add: put_dir)
  ultimately show ?thesis using assms(1,2) by (simp add: write_data_def lookup_put)
qed

lemma write_data_plain_ok:
  assumes "json_dumps lib v = Some js"
    and "s (fst p) \<noteq> None" and "lookup s p \<noteq> Some Dir"
  shows "lookup (write_data lib p v None s) p = Some (File js)"
proof -
  have "open_wb p s = Inr (put p [] s)" using assms(2,3) by (rule open_wb_ok)
  moreover have "put p [] s (fst p) \<noteq> None" using assms(2) by (simp add: put_dir)
  ultimately show ?thesis using assms(1) by (simp add: write_data_def lookup_put)
qed

lemma read_data_plain:
  "lookup s p = Some (File raw) \<Longrightarrow> json_loads lib raw = Some v \<Longrightarrow> read_data lib p False s = v"
  by (simp add: read_data_def open_rb_def)

lemma read_data_gz:
  "lookup s p = Some (File raw) \<Longrightarrow> gzip_decompress lib raw = Some js \<Longrightarrow>
   json_loads lib js = Some v \<Longrightarrow> read_data lib p True s = v"
  by (simp add: read_data_def open_rb_def)






section \<open>The age in whole days\<close>

lemma timedelta_days_ge: "n \<le> timedelta_days delta \<longleftrightarrow> n * 86400000000 \<le> delta"
proof -
  have "n \<le> delta div 86400000000 \<longleftrightarrow> n * 86400000000 \<le> delta"
    by linarith
  then show ?thesis by (simp add: timedelta_days_def)
qed

lemma age_hot_iff: "age_in_months delta \<ge> HOT_TIER_RETENTION_MONTHS \<longleftrightarrow> timedelta_days delta \<ge> 92"
proof -
  have "(3::rat) \<le> of_int d / (3044 / 100) \<longleftrightarrow> 92 \<le> d" for d :: int
  proof -
    have "(3::rat) \<le> of_int d / (3044 / 100) \<longleftrightarrow> (9132::rat) \<le> of_int (100 * d)"
      by (simp add: field_simps)
    also have "\<dots> \<longleftrightarrow> 9132 \<le> 100 * d"
      by (metis of_int_le_iff of_int_numeral)
    also have "\<dots> \<longleftrightarrow> 92 \<le> d" by linarith
    finally show ?thesis .
  qed
  then show ?thesis by (simp add: age_in_months_def HOT_TIER_RETENTION_MONTHS_def)
qed

lemma age_cool_iff: "age_in_months delta \<ge> COOL_TIER_RETENTION_MONTHS \<longleftrightarrow> timedelta_days delta \<ge> 366"
proof -
  have "(12::rat) \<le> of_int d / (3044 / 100) \<longleftrightarrow> 366 \<le> d" for d :: int
  proof -
    have "(12::rat) \<le> of_int d / (3044 / 100) \<longleftrightarrow> (36528::rat) \<le> of_int (100 * d)"
      by (simp add: field_simps)
    also have "\<dots> \<longleftrightarrow> 36528 \<le> 100 * d"
      by (metis of_int_le_iff of_int_numeral)
    also have "\<dots> \<longleftrightarrow> 366 \<le> d" by linarith
    finally show ?thesis .
  qed
  then show ?thesis by (simp add: age_in_months_def COOL_TIER_RETENTION_MONTHS_def)
qed


lemma age_margin_hot:
  "age_in_months delta \<le> 3 - 9 / 1000 \<or> 3 + 9 / 1000 \<le> age_in_months delta"
proof (cases "92 \<le> timedelta_days delta")
  case True
  then have "(92::rat) \<le> of_int (timedelta_days delta)" by linarith
  then show ?thesis by (simp add: age_in_months_def field_simps)
next
  case False
  then have "of_int (timedelta_days delta) \<le> (91::rat)" by linarith
  then show ?thesis by (simp add: age_in_months_def field_simps)
qed

lemma age_margin_cool:
  "age_in_months delta \<le> 12 - 9 / 1000 \<or> 12 + 9 / 1000 \<le> age_in_months delta"
proof (cases "366 \<le> timedelta_days delta")
  case True
  then have "(366::rat) \<le> of_int (timedelta_days delta)" by linarith
  then show ?thesis by (simp add: age_in_months_def field_simps)
next
  case False
  then have "of_int (timedelta_days delta) \<le> (365::rat)" by linarith
  then show ?thesis by (simp add: age_in_months_def field_simps)
qed

lemma record_age_Some_iff:
  "record_age lib now record_data = Inr (Some a) \<longleftrightarrow>
   (\<exists>t. invoice_date_of lib record_data = Some t \<and> a = age_in_months (now - t))"
proof (cases "invoice_date_of lib record_data")
  case None
  then have "record_age lib now record_data \<noteq> Inr (Some a)"
    by (auto simp: invoice_date_of_def record_age_def
        split: if_splits sum.splits bool.splits datetime.splits)
  then show ?thesis using None by simp
next
  case (Some t)
  then have "record_age lib now record_data = Inr (Some (age_in_months (now - t)))"
    by (auto simp: invoice_date_of_def record_age_def
        split: if_splits sum.splits bool.splits datetime.splits)
  then show ?thesis using Some by auto
qed

lemma hot_movable_iff:
  "hot_movable lib now s filename \<longleftrightarrow>
     suffix ''.json'' filename \<and>
     (\<exists>t. invoice_date_of lib (read_data lib (HOT_TIER_PATH, filename) False s) = Some t \<and>
          days 92 \<le> now - t)"
proof -
  let ?d = "read_data lib (HOT_TIER_PATH, filename) False s"
  have "(case record_age lib now ?d of Inr (Some age) \<Rightarrow> age \<ge> HOT_TIER_RETENTION_MONTHS
          | _ \<Rightarrow> False) \<longleftrightarrow>
        (\<exists>a. record_age lib now ?d = Inr (Some a) \<and> a \<ge> HOT_TIER_RETENTION_MONTHS)"
    by (auto split: sum.splits option.splits)
  also have "\<dots> \<longleftrightarrow> (\<exists>t. invoice_date_of lib ?d = Some t \<and>
        age_in_months (now - t) \<ge> HOT_TIER_RETENTION_MONTHS)"
    by (auto simp: record_age_Some_iff)
  also have "\<dots> \<longleftrightarrow> (\<exists>t. invoice_date_of lib ?d = Some t \<and> days 92 \<le> now - t)"
    by (simp add: age_hot_iff timedelta_days_ge days_def)
  finally show ?thesis by (simp add: hot_movable_def)
qed

lemma cool_movable_iff:
  "cool_movable lib now s filename_gz \<longleftrightarrow>
     suffix ''.json.gz'' filename_gz \<and>
     (\<exists>t. invoice_date_of lib
            (read_data lib (COOL_TIER_PATH, replace_gz filename_gz @ ''.gz'') True s) = Some t \<and>
          days 366 \<le> now - t)"
proof -
  let ?d = "read_data lib (COOL_TIER_PATH, replace_gz filename_gz @ ''.gz'') True s"
  have "(case record_age lib now ?d of Inr (Some age) \<Rightarrow> age \<ge> COOL_TIER_RETENTION_MONTHS
          | _ \<Rightarrow> False) \<longleftrightarrow>
        (\<exists>a. record_age lib now ?d = Inr (Some a) \<and> a \<ge> COOL_TIER_RETENTION_MONTHS)"
    by (auto split: sum.splits option.splits)
  also have "\<dots> \<longleftrightarrow> (\<exists>t. invoice_date_of lib ?d = Some t \<and>
        age_in_months (now - t) \<ge> COOL_TIER_RETENTION_MONTHS)"
    by (auto simp: record_age_Some_iff)
  also have "\<dots> \<longleftrightarrow> (\<exists>t. invoice_date_of lib ?d = Some t \<and> days 366 \<le> now - t)"
    by (simp add: age_cool_iff timedelta_days_ge days_def)
  finally show ?thesis by (simp add: cool_movable_def)
qed

lemma hot_step_decision:
  "hot_step lib now filename s =
     (if hot_movable lib now s filename then
        (case os_remove (HOT_TIER_PATH, filename)
                (write_data lib (COOL_TIER_PATH, filename @ ''.gz'')
                   (read_data lib (HOT_TIER_PATH, filename) False s)
                   (Some COOL_COMPRESSION_LEVEL) s) of
           Inl e \<Rightarrow> write_data lib (COOL_TIER_PATH, filename @ ''.gz'')
                      (read_data lib (HOT_TIER_PATH, filename) False s)
                      (Some COOL_COMPRESSION_LEVEL) s
         | Inr s2 \<Rightarrow> s2)
      else s)"
proof (cases "hot_movable lib now s filename")
  case True
  from hot_step_moves[OF True] show ?thesis using True by auto
next
  case False
  then show ?thesis by (simp add: hot_step_idle)
qed

lemma cool_step_decision:
  "cool_step lib now filename_gz s =
     (if cool_movable lib now s filename_gz then
        (case os_remove (COOL_TIER_PATH, replace_gz filename_gz @ ''.gz'')
                (write_data lib (ARCHIVE_TIER_PATH, replace_gz filename_gz @ ''.gz'')
                   (read_data lib (COOL_TIER_PATH, replace_gz filename_gz @ ''.gz'') True s)
                   (Some ARCHIVE_COMPRESSION_LEVEL) s) of
           Inl e \<Rightarrow> write_data lib (ARCHIVE_TIER_PATH, replace_gz filename_gz @ ''.gz'')
                      (read_data lib (COOL_TIER_PATH, replace_gz filename_gz @ ''.gz'') True s)
                      (Some ARCHIVE_COMPRESSION_LEVEL) s
         | Inr s2 \<Rightarrow> s2)
      else s)"
proof (cases "cool_movable lib now s filename_gz")
  case True
  from cool_step_moves[OF True] show ?thesis using True by auto
next
  case False
  then show ?thesis by (simp add: cool_step_idle)
qed

section \<open>Retrieval from the archive\<close>

lemma copyfile_Inr:
  assumes "shutil_copyfile src dst s = Inr s1"
  shows "\<exists>z. lookup s src = Some (File z) \<and> s (fst dst) \<noteq> None \<and> lookup s dst \<noteq> Some Dir \<and>
             s1 = put dst z (put dst [] s)"
proof -
  from assms obtain z s0 where z: "open_rb s src = Inr z" and o: "open_wb dst s = Inr s0"
    and s1: "s1 = put dst z s0"
    by (auto simp: shutil_copyfile_def split: sum.splits)
  from z have "lookup s src = Some (File z)"
    by (auto simp: open_rb_def split: option.splits entry.splits)
  with open_wb_Inr[OF o] s1 show ?thesis by simp
qed

lemma copyfile_Inl:
  assumes "shutil_copyfile src dst s = Inl e"
  shows "(\<forall>z. lookup s src \<noteq> Some (File z)) \<or> s (fst dst) = None \<or> lookup s dst = Some Dir"
proof (cases "open_rb s src")
  case (Inl a)
  then show ?thesis by (auto simp: open_rb_def split: option.splits entry.splits)
next
  case (Inr z)
  with assms have "open_wb dst s = Inl e"
    by (auto simp: shutil_copyfile_def split: sum.splits)
  then show ?thesis using open_wb_Inl by blast
qed

lemma read_data_bytes:
  "lookup s p = Some (File z) \<Longrightarrow> lookup s' p' = Some (File z) \<Longrightarrow>
   read_data lib p c s = read_data lib p' c s'"
  by (simp add: read_data_def open_rb_def)

lemma truthy_not_None: "truthy v \<Longrightarrow> v \<noteq> PyNone"
  by auto

text \<open>The archive branch of retrieve_data, step by step.\<close>

lemma rehydrate_steps:
  assumes c: "shutil_copyfile (ARCHIVE_TIER_PATH, f @ ''.gz'') (REHYDRATED_TIER_PATH, f @ ''.gz'') s = Inr s1"
  shows "read_data lib (REHYDRATED_TIER_PATH, f @ ''.gz'') True s1 =
           read_data lib (ARCHIVE_TIER_PATH, f @ ''.gz'') True s"
    and "\<exists>s2. os_remove (REHYDRATED_TIER_PATH, f @ ''.gz'') s1 = Inr s2 \<and>
           (\<forall>t. t \<noteq> REHYDRATED_TIER_PATH \<longrightarrow> s2 t = s t) \<and> s2 REHYDRATED_TIER_PATH \<noteq> None \<and>
           (\<forall>g. g \<noteq> f @ ''.gz'' \<longrightarrow>
              lookup s2 (REHYDRATED_TIER_PATH, g) = lookup s (REHYDRATED_TIER_PATH, g))"
proof -
  let ?tmp = "(REHYDRATED_TIER_PATH, f @ ''.gz'')"
  from copyfile_Inr[OF c] obtain z where z: "lookup s (ARCHIVE_TIER_PATH, f @ ''.gz'') = Some (File z)"
    and d: "s REHYDRATED_TIER_PATH \<noteq> None" and s1: "s1 = put ?tmp z (put ?tmp [] s)"
    by auto
  have l1: "lookup s1 ?tmp = Some (File z)"
    using d by (simp add: s1 lookup_put put_dir)
  show "read_data lib ?tmp True s1 = read_data lib (ARCHIVE_TIER_PATH, f @ ''.gz'') True s"
    using l1 z by (rule read_data_bytes)
  from os_remove_ok[OF l1] obtain s2 where s2: "os_remove ?tmp s1 = Inr s2" ..
  have "s2 t = s t" if "t \<noteq> REHYDRATED_TIER_PATH" for t
    using os_remove_Inr(3)[OF s2, of t] that by (simp add: s1 put_other)
  moreover have "s2 REHYDRATED_TIER_PATH \<noteq> None"
    using os_remove_Inr(4)[OF s2, of REHYDRATED_TIER_PATH] d by (simp add: s1 put_dir)
  moreover have "lookup s2 (REHYDRATED_TIER_PATH, g) = lookup s (REHYDRATED_TIER_PATH, g)"
    if "g \<noteq> f @ ''.gz''" for g
    using os_remove_Inr(1)[OF s2, of "(REHYDRATED_TIER_PATH, g)"] that by (simp add: s1 lookup_put)
  ultimately show "\<exists>s2. os_remove ?tmp s1 = Inr s2 \<and>
           (\<forall>t. t \<noteq> REHYDRATED_TIER_PATH \<longrightarrow> s2 t = s t) \<and> s2 REHYDRATED_TIER_PATH \<noteq> None \<and>
           (\<forall>g. g \<noteq> f @ ''.gz'' \<longrightarrow>
              lookup s2 (REHYDRATED_TIER_PATH, g) = lookup s (REHYDRATED_TIER_PATH, g))"
    using s2 by blast
qed

text \<open>What retrieve_data returns and leaves behind when only the archive holds the identifier.\<close>

lemma retrieve_archive_only:
  assumes "\<not> in_hot s rid" "\<not> in_cool s rid" "in_archive s rid"
  shows "retrieve_data lib rid hp s =
     (case shutil_copyfile (ARCHIVE_TIER_PATH, rid @ ''.json'' @ ''.gz'')
             (REHYDRATED_TIER_PATH, rid @ ''.json'' @ ''.gz'') s of
        Inl e \<Rightarrow> (Returns PyNone, s)
      | Inr s1 \<Rightarrow>
          (case os_remove (REHYDRATED_TIER_PATH, rid @ ''.json'' @ ''.gz'') s1 of
             Inl e \<Rightarrow> (Returns PyNone, s1)
           | Inr s2 \<Rightarrow>
               if truthy (read_data lib (ARCHIVE_TIER_PATH, rid @ ''.json'' @ ''.gz'') True s)
               then (Returns (read_data lib (ARCHIVE_TIER_PATH, rid @ ''.json'' @ ''.gz'') True s),
                     write_data lib (REHYDRATED_TIER_PATH, rid @ ''.json'')
                       (read_data lib (ARCHIVE_TIER_PATH, rid @ ''.json'' @ ''.gz'') True s) None s2)
               else (Returns PyNone, s2)))"
proof (cases "shutil_copyfile (ARCHIVE_TIER_PATH, rid @ ''.json'' @ ''.gz'')
             (REHYDRATED_TIER_PATH, rid @ ''.json'' @ ''.gz'') s")
  case (Inl e)
  then show ?thesis using assms by (simp add: retrieve_data_def in_tier_defs)
next
  case (Inr s1)
  have "read_data lib (REHYDRATED_TIER_PATH, (rid @ ''.json'') @ ''.gz'') True s1 =
           read_data lib (ARCHIVE_TIER_PATH, (rid @ ''.json'') @ ''.gz'') True s"
    using Inr by (intro rehydrate_steps(1)) simp
  then show ?thesis using assms Inr
    by (simp add: retrieve_data_def in_tier_defs Let_def split: sum.splits)
qed

lemma write_data_plain_lookup:
  assumes "s (fst p) \<noteq> None"
  shows "lookup (write_data lib p v None s) p =
     (case json_dumps lib v of
        None \<Rightarrow> lookup s p
      | Some js \<Rightarrow> if lookup s p = Some Dir then Some Dir else Some (File js))"
proof (cases "json_dumps lib v")
  case None
  then show ?thesis by (simp add: write_data_def)
next
  case (Some js)
  show ?thesis
  proof (cases "lookup s p = Some Dir")
    case True
    then have "\<exists>e. open_wb p s = Inl e"
      using assms by (auto simp: open_wb_def lookup_def split: option.splits)
    then show ?thesis using Some True by (auto simp: write_data_def)
  next
    case False
    then show ?thesis using Some write_data_plain_ok[OF Some assms False] by simp
  qed
qed

lemma retrieve_frame:
  assumes "t \<noteq> REHYDRATED_TIER_PATH"
  shows "snd (retrieve_data lib record_id high_priority s) t = s t"
proof -
  let ?f = "record_id @ ''.json''"
  let ?pa = "(ARCHIVE_TIER_PATH, ?f @ ''.gz'')"
  let ?tmp = "(REHYDRATED_TIER_PATH, ?f @ ''.gz'')"
  let ?cache = "(REHYDRATED_TIER_PATH, ?f)"
  show ?thesis
  proof (cases "shutil_copyfile ?pa ?tmp s")
    case (Inl e)
    then show ?thesis by (simp add: retrieve_data_def get_file_path_def Let_def)
  next
    case (Inr s1)
    from copyfile_Inr[OF Inr] obtain z where "s1 = put ?tmp z (put ?tmp [] s)" by auto
    then have s1: "s1 t = s t" using assms by (simp add: put_other)
    show ?thesis
    proof (cases "os_remove ?tmp s1")
      case (Inl e)
      then show ?thesis using Inr s1 by (simp add: retrieve_data_def get_file_path_def Let_def)
    next
      case r: (Inr s2)
      have s2: "s2 t = s t" using os_remove_Inr(3)[OF r, of t] assms s1 by simp
      have "write_data lib ?cache d None s2 t = s t" for d
        using assms s2 by (simp add: write_data_tier)
      then show ?thesis using Inr r s2
        by (simp add: retrieve_data_def get_file_path_def Let_def)
    qed
  qed
qed

lemma retrieve_archive_success:
  assumes only: "\<not> in_hot s record_id" "\<not> in_cool s record_id" "in_archive s record_id"
    and ret: "retrieve_data lib record_id high_priority s = (Returns data, s')"
    and ok: "data \<noteq> PyNone"
  shows "data = read_data lib (ARCHIVE_TIER_PATH, record_id @ ''.json.gz'') True s \<and>
         s' HOT_TIER_PATH = s HOT_TIER_PATH \<and> s' COOL_TIER_PATH = s COOL_TIER_PATH \<and>
         s' ARCHIVE_TIER_PATH = s ARCHIVE_TIER_PATH \<and>
         lookup s' (REHYDRATED_TIER_PATH, record_id @ ''.json'') =
           (case json_dumps lib data of
              None \<Rightarrow> lookup s (REHYDRATED_TIER_PATH, record_id @ ''.json'')
            | Some js \<Rightarrow>
                if lookup s (REHYDRATED_TIER_PATH, record_id @ ''.json'') = Some Dir then Some Dir
                else Some (File js))"
proof -
  let ?f = "record_id @ ''.json''"
  let ?pa = "(ARCHIVE_TIER_PATH, ?f @ ''.gz'')"
  let ?tmp = "(REHYDRATED_TIER_PATH, ?f @ ''.gz'')"
  let ?cache = "(REHYDRATED_TIER_PATH, ?f)"
  let ?d = "read_data lib ?pa True s"
  note nn = ok
  from ret nn obtain s1 where c: "shutil_copyfile ?pa ?tmp s = Inr s1"
    by (auto simp: retrieve_archive_only[OF only] split: sum.splits)
  from rehydrate_steps(2)[OF c] obtain s2 where r: "os_remove ?tmp s1 = Inr s2"
    and frame: "\<And>t. t \<noteq> REHYDRATED_TIER_PATH \<Longrightarrow> s2 t = s t"
    and dir: "s2 REHYDRATED_TIER_PATH \<noteq> None"
    and keep: "\<And>g. g \<noteq> ?f @ ''.gz'' \<Longrightarrow>
        lookup s2 (REHYDRATED_TIER_PATH, g) = lookup s (REHYDRATED_TIER_PATH, g)"
    by blast
  from ret nn c r have data: "data = ?d" and s': "s' = write_data lib ?cache ?d None s2"
    by (auto simp: retrieve_archive_only[OF only] split: if_splits)
  have other: "s' t = s t" if "t \<noteq> REHYDRATED_TIER_PATH" for t
    using that by (simp add: s' write_data_tier frame)
  have k: "lookup s2 ?cache = lookup s ?cache" by (rule keep) simp
  have "lookup s' ?cache =
      (case json_dumps lib ?d of
         None \<Rightarrow> lookup s2 ?cache
       | Some js \<Rightarrow> if lookup s2 ?cache = Some Dir then Some Dir else Some (File js))"
    unfolding s' using dir by (intro write_data_plain_lookup) simp
  then have "lookup s' ?cache =
      (case json_dumps lib ?d of
         None \<Rightarrow> lookup s ?cache
       | Some js \<Rightarrow> if lookup s ?cache = Some Dir then Some Dir else Some (File js))"
    unfolding k .
  then show ?thesis using data other by simp
qed

section \<open>The pass when a removal is refused\<close>

lemma os_remove_perm_nothing_denied: "os_remove_perm (\<lambda>p. False) p s = os_remove p s"
  by (simp add: os_remove_perm_def split: sum.splits)

lemma hot_step_perm_cases:
  "hot_step_perm denied lib now f s =
     (if hot_movable lib now s f \<and> denied (HOT_TIER_PATH, f) then
        write_data lib (COOL_TIER_PATH, f @ ''.gz'')
          (read_data lib (HOT_TIER_PATH, f) False s) (Some COOL_COMPRESSION_LEVEL) s
      else hot_step lib now f s)"
proof (cases "hot_movable lib now s f")
  case False
  then have "hot_step_perm denied lib now f s = s"
    by (auto simp: hot_movable_def hot_step_perm_def get_file_path_def Let_def
        split: sum.splits option.splits)
  then show ?thesis using False by (simp add: hot_step_idle)
next
  case True
  from hot_step_moves[OF True] obtain s2 where
    r: "os_remove (HOT_TIER_PATH, f)
          (write_data lib (COOL_TIER_PATH, f @ ''.gz'')
             (read_data lib (HOT_TIER_PATH, f) False s) (Some COOL_COMPRESSION_LEVEL) s) = Inr s2"
    and h: "hot_step lib now f s = s2" by blast
  from True obtain age where
    a: "record_age lib now (read_data lib (HOT_TIER_PATH, f) False s) = Inr (Some age)"
    and b: "age \<ge> HOT_TIER_RETENTION_MONTHS" and c: "suffix ''.json'' f"
    by (auto simp: hot_movable_def split: sum.splits option.splits)
  show ?thesis using True a b c r h
    by (simp add: hot_step_perm_def os_remove_perm_def get_file_path_def Let_def)
qed

lemma cool_step_perm_cases:
  "cool_step_perm denied lib now f s =
     (if cool_movable lib now s f \<and> denied (COOL_TIER_PATH, replace_gz f @ ''.gz'') then
        write_data lib (ARCHIVE_TIER_PATH, replace_gz f @ ''.gz'')
          (read_data lib (COOL_TIER_PATH, replace_gz f @ ''.gz'') True s)
          (Some ARCHIVE_COMPRESSION_LEVEL) s
      else cool_step lib now f s)"
proof (cases "cool_movable lib now s f")
  case False
  then have "cool_step_perm denied lib now f s = s"
    by (auto simp: cool_movable_def cool_step_perm_def get_file_path_def Let_def
        split: sum.splits option.splits)
  then show ?thesis using False by (simp add: cool_step_idle)
next
  case True
  from cool_step_moves[OF True] obtain s2 where
    r: "os_remove (COOL_TIER_PATH, replace_gz f @ ''.gz'')
          (write_data lib (ARCHIVE_TIER_PATH, replace_gz f @ ''.gz'')
             (read_data lib (COOL_TIER_PATH, replace_gz f @ ''.gz'') True s)
             (Some ARCHIVE_COMPRESSION_LEVEL) s) = Inr s2"
    and h: "cool_step lib now f s = s2" by blast
  from True obtain age where
    a: "record_age lib now (read_data lib (COOL_TIER_PATH, replace_gz f @ ''.gz'') True s) =
          Inr (Some age)"
    and b: "age \<ge> COOL_TIER_RETENTION_MONTHS" and c: "suffix ''.json.gz'' f"
    by (auto simp: cool_movable_def split: sum.splits option.splits)
  show ?thesis using True a b c r h
    by (simp add: cool_step_perm_def os_remove_perm_def get_file_path_def Let_def)
qed

lemma hot_step_perm_nothing_denied: "hot_step_perm (\<lambda>p. False) = hot_step"
  by (simp add: fun_eq_iff hot_step_perm_cases)

lemma cool_step_perm_nothing_denied: "cool_step_perm (\<lambda>p. False) = cool_step"
  by (simp add: fun_eq_iff cool_step_perm_cases)

lemma manage_data_tiers_perm_nothing_denied:
  "manage_data_tiers_perm (\<lambda>p. False) = manage_data_tiers"
  unfolding fun_eq_iff manage_data_tiers_perm_def manage_data_tiers_def
    hot_step_perm_nothing_denied cool_step_perm_nothing_denied by simp

lemma in_tier_cong:
  assumes "lookup s' (HOT_TIER_PATH, rid @ ''.json'') = lookup s (HOT_TIER_PATH, rid @ ''.json'')"
    and "lookup s' (COOL_TIER_PATH, rid @ ''.json.gz'') = lookup s (COOL_TIER_PATH, rid @ ''.json.gz'')"
    and "lookup s' (ARCHIVE_TIER_PATH, rid @ ''.json.gz'') =
         lookup s (ARCHIVE_TIER_PATH, rid @ ''.json.gz'')"
  shows "at_most_one_tier s' rid = at_most_one_tier s rid"
  using assms by (simp add: at_most_one_tier_def in_tier_defs)

lemma hot_step_perm_at_most_one:
  assumes "at_most_one_tier s rid" and "\<not> denied (HOT_TIER_PATH, rid @ ''.json'')"
  shows "at_most_one_tier (hot_step_perm denied lib now f s) rid"
proof (cases "hot_movable lib now s f \<and> denied (HOT_TIER_PATH, f)")
  case False
  then have "hot_step_perm denied lib now f s = hot_step lib now f s"
    by (auto simp: hot_step_perm_cases)
  then show ?thesis using assms(1) by (simp add: hot_step_at_most_one)
next
  case True
  then have ne: "f \<noteq> rid @ ''.json''" using assms(2) by auto
  let ?s' = "write_data lib (COOL_TIER_PATH, f @ ''.gz'')
          (read_data lib (HOT_TIER_PATH, f) False s) (Some COOL_COMPRESSION_LEVEL) s"
  have "at_most_one_tier ?s' rid = at_most_one_tier s rid"
    using ne by (intro in_tier_cong) (simp_all add: write_data_other)
  moreover have "hot_step_perm denied lib now f s = ?s'"
    using True by (simp add: hot_step_perm_cases)
  ultimately show ?thesis using assms(1) by simp
qed

lemma cool_step_perm_at_most_one:
  assumes "at_most_one_tier s rid" and "\<not> denied (COOL_TIER_PATH, rid @ ''.json.gz'')"
  shows "at_most_one_tier (cool_step_perm denied lib now f s) rid"
proof (cases "cool_movable lib now s f \<and> denied (COOL_TIER_PATH, replace_gz f @ ''.gz'')")
  case False
  then have "cool_step_perm denied lib now f s = cool_step lib now f s"
    by (auto simp: cool_step_perm_cases)
  then show ?thesis using assms(1) by (simp add: cool_step_at_most_one)
next
  case True
  then have ne: "replace_gz f @ ''.gz'' \<noteq> rid @ ''.json.gz''" using assms(2) by auto
  let ?s' = "write_data lib (ARCHIVE_TIER_PATH, replace_gz f @ ''.gz'')
          (read_data lib (COOL_TIER_PATH, replace_gz f @ ''.gz'') True s)
          (Some ARCHIVE_COMPRESSION_LEVEL) s"
  have "at_most_one_tier ?s' rid = at_most_one_tier s rid"
    using ne by (intro in_tier_cong) (simp_all add: write_data_other)
  moreover have "cool_step_perm denied lib now f s = ?s'"
    using True by (simp add: cool_step_perm_cases)
  ultimately show ?thesis using assms(1) by simp
qed

lemma hot_loop_perm_at_most_one:
  "at_most_one_tier s rid \<Longrightarrow> \<not> denied (HOT_TIER_PATH, rid @ ''.json'') \<Longrightarrow>
   at_most_one_tier (fold (hot_step_perm denied lib now) fs s) rid"
  by (induction fs arbitrary: s) (simp_all add: hot_step_perm_at_most_one)

lemma cool_loop_perm_at_most_one:
  "at_most_one_tier s rid \<Longrightarrow> \<not> denied (COOL_TIER_PATH, rid @ ''.json.gz'') \<Longrightarrow>
   at_most_one_tier (fold (cool_step_perm denied lib now) fs s) rid"
  by (induction fs arbitrary: s) (simp_all add: cool_step_perm_at_most_one)

section \<open>The claims\<close>

text \<open>
  Claim C1. The transition pass is to delete a record from its source tier only after the
  write to the destination tier has succeeded, so that a failed write leaves the record
  readable where it was. The program does not do this: \<^verbatim>\<open>write_data\<close> catches the
  exception of a failed write and returns normally, and \<^verbatim>\<open>manage_data_tiers\<close> goes on to
  \<^verbatim>\<open>os.remove\<close> (line 125, with the comment "Delete from hot tier after successful
  move"; line 155 for the cool tier). Evaluated on a hot tier that holds the record \<open>R1\<close>,
  400 days old, while a directory stands in the cool tier under the name of its copy:
  the record was readable before the pass, the pass completes, and afterwards the record
  is in no tier and \<^verbatim>\<open>retrieve_data\<close> returns \<^verbatim>\<open>None\<close> for it.
\<close>

theorem failed_write_loses_record:
  "read_data example_lib (HOT_TIER_PATH, ''BILL-00001.json'') False fs_blocked = R1 \<and>
   manage_data_tiers example_lib (days 400) fs_blocked = (Returns (), fs_lost) \<and>
   \<not> in_hot fs_lost ''BILL-00001'' \<and> \<not> in_archive fs_lost ''BILL-00001'' \<and>
   lookup fs_lost (COOL_TIER_PATH, ''BILL-00001.json.gz'') = Some Dir \<and>
   retrieve_data example_lib ''BILL-00001'' False fs_lost = (Returns PyNone, fs_lost)"
  by (simp add: in_tier_defs ex_defs model_defs fun_eq_iff)

text \<open>
  Claim C2, as amended. A transition pass keeps the property for a record identifier as
  long as the operating system does not refuse the removal of the identifier's hot file
  or of its cool file: an identifier that is present in at most one of the hot, cool and
  archive tiers before the pass is then present in at most one of them after it (whether
  the pass completes or is ended by a missing directory). The pass does not repair an
  identifier that is in two tiers when it starts, and a removal that is refused after the
  write has succeeded leaves the identifier in two tiers.
\<close>

theorem pass_keeps_at_most_one_tier:
  assumes "at_most_one_tier s record_id"
    and "\<not> denied (HOT_TIER_PATH, record_id @ ''.json'')"
    and "\<not> denied (COOL_TIER_PATH, record_id @ ''.json.gz'')"
    and "manage_data_tiers_perm denied lib now s = (r, s')"
  shows "at_most_one_tier s' record_id"
proof (cases "os_listdir HOT_TIER_PATH s")
  case (Inl e)
  then show ?thesis using assms by (simp add: manage_data_tiers_perm_def)
next
  case (Inr L)
  let ?s1 = "fold (hot_step_perm denied lib now) L s"
  have s1: "at_most_one_tier ?s1 record_id"
    using assms(1,2) by (rule hot_loop_perm_at_most_one)
  show ?thesis
  proof (cases "os_listdir COOL_TIER_PATH ?s1")
    case (Inl e)
    then show ?thesis using assms(4) Inr s1 by (simp add: manage_data_tiers_perm_def)
  next
    case (Inr L1)
    then have "s' = fold (cool_step_perm denied lib now) L1 ?s1"
      using assms(4) \<open>os_listdir HOT_TIER_PATH s = Inr L\<close>
      by (simp add: manage_data_tiers_perm_def)
    then show ?thesis using s1 assms(3) by (simp add: cool_loop_perm_at_most_one)
  qed
qed

theorem pass_keeps_at_most_one_tier_witness:
  "at_most_one_tier fs_hot_only ''BILL-00001'' \<and>
   manage_data_tiers_perm (\<lambda>p. p = (HOT_TIER_PATH, ''BILL-00002.json'')) example_lib (days 400)
     fs_hot_only = (Returns (), fs_archived) \<and>
   at_most_one_tier fs_archived ''BILL-00001''"
proof -
  let ?denied = "\<lambda>p. p = (HOT_TIER_PATH, ''BILL-00002.json'')"
  have a: "at_most_one_tier fs_hot_only ''BILL-00001''"
    by (simp add: at_most_one_tier_def in_tier_defs lookup_def fs_hot_only_def empty_fs_def)
  have h: "\<not> ?denied (HOT_TIER_PATH, ''BILL-00001'' @ ''.json'')"
    and c: "\<not> ?denied (COOL_TIER_PATH, ''BILL-00001'' @ ''.json.gz'')"
    by simp_all
  have b: "manage_data_tiers_perm ?denied example_lib (days 400) fs_hot_only =
      (Returns (), fs_archived)"
    by (simp add: ex_defs model_defs perm_defs fun_eq_iff)
  from pass_keeps_at_most_one_tier[of fs_hot_only "''BILL-00001''" ?denied, OF a h c b] a b
  show ?thesis by simp
qed

text \<open>
  The claim as stated fails: the identifier \<^verbatim>\<open>BILL-00001\<close> is in the hot and in the cool
  tier (a record ingested again under an identifier that was moved before), neither copy
  is old enough to move, and the completed pass leaves both where they are.
\<close>

theorem duplicate_survives_pass:
  "manage_data_tiers example_lib (days 10) fs_both = (Returns (), fs_both) \<and>
   in_hot fs_both ''BILL-00001'' \<and> in_cool fs_both ''BILL-00001'' \<and>
   \<not> at_most_one_tier fs_both ''BILL-00001''"
  by (simp add: ex_defs model_defs fun_eq_iff at_most_one_tier_def in_tier_defs)

text \<open>
  The condition on the removal is needed: when \<^verbatim>\<open>os.remove\<close> of the hot file is refused,
  the \<^verbatim>\<open>except\<close> of line 130 swallows the error after the cool copy has been written,
  and the completed pass leaves the identifier in the hot and in the cool tier.
\<close>

lemma refused_delete_leaves_two_copies:
  "at_most_one_tier fs_hot_only ''BILL-00001'' \<and>
   manage_data_tiers_perm (\<lambda>p. p = (HOT_TIER_PATH, ''BILL-00001.json'')) example_lib (days 100)
     fs_hot_only = (Returns (), fs_two_copies) \<and>
   \<not> at_most_one_tier fs_two_copies ''BILL-00001''"
  by (simp add: ex_defs model_defs perm_defs fun_eq_iff at_most_one_tier_def in_tier_defs)

text \<open>
  Claim C3, as amended. For every record and for both loops of the pass, the decision to
  move is taken on the whole days between the record's \<^verbatim>\<open>invoice_date\<close> and now: the age
  the pass computes is that number of whole days divided by 30.44 (\<^verbatim>\<open>timedelta.days\<close>
  drops the fraction of a day), it is compared inclusively with the threshold, and so
  the body of the first loop moves a file exactly when its name ends in \<^verbatim>\<open>.json\<close> and
  its record has an invoice date at least 92 whole days before now, and the body of the
  second loop exactly when the name ends in \<^verbatim>\<open>.json.gz\<close> and the record it reads has an
  invoice date at least 366 whole days before now. In every other case the body leaves
  the file system as it is.
\<close>

theorem eligibility_in_whole_days:
  "hot_step lib now filename s =
     (if suffix ''.json'' filename \<and>
         (\<exists>t. invoice_date_of lib (read_data lib (HOT_TIER_PATH, filename) False s) = Some t \<and>
              days 92 \<le> now - t)
      then (let s1 = write_data lib (COOL_TIER_PATH, filename @ ''.gz'')
                       (read_data lib (HOT_TIER_PATH, filename) False s)
                       (Some COOL_COMPRESSION_LEVEL) s
            in case os_remove (HOT_TIER_PATH, filename) s1 of Inl e \<Rightarrow> s1 | Inr s2 \<Rightarrow> s2)
      else s) \<and>
   cool_step lib now filename_gz s =
     (if suffix ''.json.gz'' filename_gz \<and>
         (\<exists>t. invoice_date_of lib
                (read_data lib (COOL_TIER_PATH, replace_gz filename_gz @ ''.gz'') True s) = Some t \<and>
              days 366 \<le> now - t)
      then (let s1 = write_data lib (ARCHIVE_TIER_PATH, replace_gz filename_gz @ ''.gz'')
                       (read_data lib (COOL_TIER_PATH, replace_gz filename_gz @ ''.gz'') True s)
                       (Some ARCHIVE_COMPRESSION_LEVEL) s
            in case os_remove (COOL_TIER_PATH, replace_gz filename_gz @ ''.gz'') s1 of
                 Inl e \<Rightarrow> s1 | Inr s2 \<Rightarrow> s2)
      else s) \<and>
   (record_age lib now record_data = Inr (Some age) \<longleftrightarrow>
      (\<exists>t. invoice_date_of lib record_data = Some t \<and>
           age = of_int ((now - t) div days 1) / (3044 / 100)))"
proof -
  have h: "hot_movable lib now s filename \<longleftrightarrow>
     suffix ''.json'' filename \<and>
     (\<exists>t. invoice_date_of lib (read_data lib (HOT_TIER_PATH, filename) False s) = Some t \<and>
          days 92 \<le> now - t)"
    by (rule hot_movable_iff)
  have c: "cool_movable lib now s filename_gz \<longleftrightarrow>
     suffix ''.json.gz'' filename_gz \<and>
     (\<exists>t. invoice_date_of lib
            (read_data lib (COOL_TIER_PATH, replace_gz filename_gz @ ''.gz'') True s) = Some t \<and>
          days 366 \<le> now - t)"
    by (rule cool_movable_iff)
  have a: "age_in_months d = of_int (d div days 1) / (3044 / 100)" for d
    by (simp add: age_in_months_def timedelta_days_def days_def)
  show ?thesis
    unfolding h[symmetric] c[symmetric] Let_def
    using hot_step_decision[of lib now filename s] cool_step_decision[of lib now filename_gz s]
      record_age_Some_iff[of lib now record_data age]
    by (simp add: a)
qed

text \<open>
  At the boundary: a record whose invoice date is exactly 92 days before now is moved
  from hot to cool, one microsecond less and it stays; a record whose invoice date is
  exactly 366 days before now is moved from cool to archive, one microsecond less and it
  stays.
\<close>

theorem eligibility_in_whole_days_witness:
  "hot_step example_lib (days 92) ''BILL-00001.json'' fs_hot_only = fs_cooled \<and>
   hot_step example_lib (days 92 - 1) ''BILL-00001.json'' fs_hot_only = fs_hot_only \<and>
   cool_step example_lib (days 366) ''BILL-00001.json.gz'' fs_cooled = fs_archived \<and>
   cool_step example_lib (days 366 - 1) ''BILL-00001.json.gz'' fs_cooled = fs_cooled"
proof -
  have i: "invoice_date_of example_lib R1 = Some 0"
    by (simp add: invoice_date_of_def ex_defs)
  have rh: "read_data example_lib (HOT_TIER_PATH, ''BILL-00001.json'') False fs_hot_only = R1"
    and rc: "read_data example_lib (COOL_TIER_PATH, replace_gz ''BILL-00001.json.gz'' @ ''.gz'')
               True fs_cooled = R1"
    by (simp_all add: ex_defs model_defs)
  have wh: "(let s1 = write_data example_lib (COOL_TIER_PATH, ''BILL-00001.json'' @ ''.gz'') R1
                       (Some COOL_COMPRESSION_LEVEL) fs_hot_only
            in case os_remove (HOT_TIER_PATH, ''BILL-00001.json'') s1 of
                 Inl e \<Rightarrow> s1 | Inr s2 \<Rightarrow> s2) = fs_cooled"
    by (simp add: ex_defs model_defs fun_eq_iff)
  have wc: "(let s1 = write_data example_lib
                       (ARCHIVE_TIER_PATH, replace_gz ''BILL-00001.json.gz'' @ ''.gz'') R1
                       (Some ARCHIVE_COMPRESSION_LEVEL) fs_cooled
            in case os_remove (COOL_TIER_PATH, replace_gz ''BILL-00001.json.gz'' @ ''.gz'') s1 of
                 Inl e \<Rightarrow> s1 | Inr s2 \<Rightarrow> s2) = fs_archived"
    by (simp add: ex_defs model_defs fun_eq_iff)
  have sh: "suffix ''.json'' ''BILL-00001.json''" and sc: "suffix ''.json.gz'' ''BILL-00001.json.gz''"
    by (simp_all add: suffix_to_prefix)
  note hot = eligibility_in_whole_days[where lib = example_lib and s = fs_hot_only
      and filename = "''BILL-00001.json''"]
  note cool = eligibility_in_whole_days[where lib = example_lib and s = fs_cooled
      and filename_gz = "''BILL-00001.json.gz''"]
  have "hot_step example_lib (days 92) ''BILL-00001.json'' fs_hot_only = fs_cooled"
    using hot[where now = "days 92"] by (simp only: rh i wh sh) (simp add: days_def)
  moreover have "hot_step example_lib (days 92 - 1) ''BILL-00001.json'' fs_hot_only = fs_hot_only"
    using hot[where now = "days 92 - 1"] by (simp only: rh i wh sh) (simp add: days_def)
  moreover have "cool_step example_lib (days 366) ''BILL-00001.json.gz'' fs_cooled = fs_archived"
    using cool[where now = "days 366"] by (simp only: rc i wc sc) (simp add: days_def)
  moreover have "cool_step example_lib (days 366 - 1) ''BILL-00001.json.gz'' fs_cooled = fs_cooled"
    using cool[where now = "days 366 - 1"] by (simp only: rc i wc sc) (simp add: days_def)
  ultimately show ?thesis by simp
qed

text \<open>
  The claim as stated fails: a record whose \<^verbatim>\<open>invoice_date\<close> is exactly 3 months of 30.44
  days before now (91.32 days, 7890048 seconds) has, in the specification's words, the
  age 3, but the program counts 91 days, 2.99 months, and the pass leaves it in the hot
  tier.
\<close>

theorem exact_threshold_not_eligible:
  "spec_age_months 7890048000000 = HOT_TIER_RETENTION_MONTHS \<and>
   \<not> (age_in_months 7890048000000 \<ge> HOT_TIER_RETENTION_MONTHS) \<and>
   manage_data_tiers example_lib 7890048000000 fs_hot_only = (Returns (), fs_hot_only)"
  by (simp add: spec_age_months_def ex_defs model_defs fun_eq_iff)

text \<open>
  Claim C4. For every record and every compression level, also none, what \<^verbatim>\<open>read_data\<close>
  decodes from the file that \<^verbatim>\<open>write_data\<close> wrote is the record: reading is called with
  \<^verbatim>\<open>compressed\<close> exactly when a level was given. The statement is relative to the
  library, whose code is not part of the program: \<^verbatim>\<open>json.loads\<close> inverts \<^verbatim>\<open>json.dumps\<close>
  on this record and \<^verbatim>\<open>gzip\<close> decompresses what it compressed at this level (so the
  level is one \<^verbatim>\<open>zlib\<close> accepts); and the file can be written (its directory exists and
  no directory stands under its name).
\<close>

theorem write_then_read_roundtrip:
  assumes "json_dumps lib data = Some js" and "json_loads lib js = Some data"
    and "case compress_level of None \<Rightarrow> True
         | Some level \<Rightarrow> (case gzip_compress lib level js of None \<Rightarrow> False
                           | Some z \<Rightarrow> gzip_decompress lib z = Some js)"
    and "s (fst file_path) \<noteq> None" and "lookup s file_path \<noteq> Some Dir"
  shows "read_data lib file_path (compress_level \<noteq> None)
           (write_data lib file_path data compress_level s) = data"
proof (cases compress_level)
  case None
  have "lookup (write_data lib file_path data None s) file_path = Some (File js)"
    using assms(1,4,5) by (rule write_data_plain_ok)
  then show ?thesis using None assms(2) by (simp add: read_data_plain)
next
  case (Some level)
  with assms(3) obtain z where z: "gzip_compress lib level js = Some z"
    "gzip_decompress lib z = Some js" by (auto split: option.splits)
  have "lookup (write_data lib file_path data (Some level) s) file_path = Some (File z)"
    using assms(1) z(1) assms(4,5) by (rule write_data_gz_ok)
  then show ?thesis using Some z(2) assms(2) by (simp add: read_data_gz)
qed

theorem write_then_read_roundtrip_witness:
  "read_data example_lib (COOL_TIER_PATH, ''BILL-00001.json.gz'') True
     (write_data example_lib (COOL_TIER_PATH, ''BILL-00001.json.gz'') R1 (Some 5) empty_fs) = R1 \<and>
   read_data example_lib (HOT_TIER_PATH, ''BILL-00001.json'') False
     (write_data example_lib (HOT_TIER_PATH, ''BILL-00001.json'') R1 None empty_fs) = R1"
proof -
  have d: "json_dumps example_lib R1 = Some R1_json" and l: "json_loads example_lib R1_json = Some R1"
    by (simp_all add: ex_defs)
  have g: "case Some (5::int) of None \<Rightarrow> True
         | Some level \<Rightarrow> (case gzip_compress example_lib level R1_json of None \<Rightarrow> False
                           | Some z \<Rightarrow> gzip_decompress example_lib z = Some R1_json)"
    by (simp add: ex_defs)
  have n: "case (None :: int option) of None \<Rightarrow> True
         | Some level \<Rightarrow> (case gzip_compress example_lib level R1_json of None \<Rightarrow> False
                           | Some z \<Rightarrow> gzip_decompress example_lib z = Some R1_json)"
    by simp
  have c: "empty_fs (fst (COOL_TIER_PATH, ''BILL-00001.json.gz'')) \<noteq> None"
    "lookup empty_fs (COOL_TIER_PATH, ''BILL-00001.json.gz'') \<noteq> Some Dir"
    and h: "empty_fs (fst (HOT_TIER_PATH, ''BILL-00001.json'')) \<noteq> None"
    "lookup empty_fs (HOT_TIER_PATH, ''BILL-00001.json'') \<noteq> Some Dir"
    by (simp_all add: ex_defs lookup_def)
  from write_then_read_roundtrip[OF d l g c] write_then_read_roundtrip[OF d l n h]
  show ?thesis by simp
qed

text \<open>
  Claim C5. \<^verbatim>\<open>retrieve_data\<close> probes the hot, the cool and the archive tier in this order
  and answers from the first tier in which the identifier is present: what \<^verbatim>\<open>read_data\<close>
  gives for the hot file; else for the cool file; else, after the copy into the
  rehydrated directory, for the archive file when that is a usable (truthy) record, and
  \<^verbatim>\<open>None\<close> otherwise. In particular, an identifier present in both hot and cool is
  answered from hot.
\<close>

theorem retrieve_probe_order:
  "fst (retrieve_data lib record_id high_priority s) =
     (if in_hot s record_id then
        Returns (read_data lib (HOT_TIER_PATH, record_id @ ''.json'') False s)
      else if in_cool s record_id then
        Returns (read_data lib (COOL_TIER_PATH, record_id @ ''.json.gz'') True s)
      else if in_archive s record_id \<and> s REHYDRATED_TIER_PATH \<noteq> None \<and>
              lookup s (REHYDRATED_TIER_PATH, record_id @ ''.json.gz'') \<noteq> Some Dir \<and>
              truthy (read_data lib (ARCHIVE_TIER_PATH, record_id @ ''.json.gz'') True s) then
        Returns (read_data lib (ARCHIVE_TIER_PATH, record_id @ ''.json.gz'') True s)
      else Returns PyNone) \<and>
   (in_hot s record_id \<and> in_cool s record_id \<longrightarrow>
      fst (retrieve_data lib record_id high_priority s) =
        Returns (read_data lib (HOT_TIER_PATH, record_id @ ''.json'') False s))"
proof -
  let ?pa = "(ARCHIVE_TIER_PATH, record_id @ ''.json'' @ ''.gz'')"
  let ?tmp = "(REHYDRATED_TIER_PATH, record_id @ ''.json'' @ ''.gz'')"
  have hot: "fst (retrieve_data lib record_id high_priority s) =
      Returns (read_data lib (HOT_TIER_PATH, record_id @ ''.json'') False s)" if "in_hot s record_id"
    using that by (simp add: retrieve_data_def in_tier_defs)
  have cool: "fst (retrieve_data lib record_id high_priority s) =
      Returns (read_data lib (COOL_TIER_PATH, record_id @ ''.json.gz'') True s)"
    if "\<not> in_hot s record_id" "in_cool s record_id"
    using that by (simp add: retrieve_data_def in_tier_defs)
  have none: "fst (retrieve_data lib record_id high_priority s) = Returns PyNone"
    if "\<not> in_hot s record_id" "\<not> in_cool s record_id" "\<not> in_archive s record_id"
    using that by (simp add: retrieve_data_def in_tier_defs)
  have arch: "fst (retrieve_data lib record_id high_priority s) =
      (if s REHYDRATED_TIER_PATH \<noteq> None \<and> lookup s ?tmp \<noteq> Some Dir \<and>
          truthy (read_data lib ?pa True s)
       then Returns (read_data lib ?pa True s) else Returns PyNone)"
    if a: "\<not> in_hot s record_id" "\<not> in_cool s record_id" "in_archive s record_id"
  proof (cases "shutil_copyfile ?pa ?tmp s")
    case (Inl e)
    have "\<not> (s REHYDRATED_TIER_PATH \<noteq> None \<and> lookup s ?tmp \<noteq> Some Dir \<and>
          truthy (read_data lib ?pa True s))"
    proof
      assume h: "s REHYDRATED_TIER_PATH \<noteq> None \<and> lookup s ?tmp \<noteq> Some Dir \<and>
          truthy (read_data lib ?pa True s)"
      then have "read_data lib ?pa True s \<noteq> PyNone" using truthy_not_None by blast
      then obtain z where "lookup s ?pa = Some (File z)" using read_data_File by blast
      with copyfile_Inl[OF Inl] h show False by simp
    qed
    then show ?thesis using Inl by (auto simp: retrieve_archive_only[OF a])
  next
    case (Inr s1)
    from copyfile_Inr[OF Inr] have ok: "s REHYDRATED_TIER_PATH \<noteq> None \<and> lookup s ?tmp \<noteq> Some Dir"
      by auto
    from rehydrate_steps(2)[of "record_id @ ''.json''" s s1] Inr
    obtain s2 where "os_remove ?tmp s1 = Inr s2" by auto
    then show ?thesis using Inr ok by (simp add: retrieve_archive_only[OF a])
  qed
  show ?thesis
  proof (cases "in_hot s record_id")
    case True
    then show ?thesis using hot by simp
  next
    case nh: False
    show ?thesis
    proof (cases "in_cool s record_id")
      case True
      then show ?thesis using nh cool by simp
    next
      case nc: False
      show ?thesis
      proof (cases "in_archive s record_id")
        case True
        then show ?thesis using nh nc arch[OF nh nc True] by simp
      next
        case False
        then show ?thesis using nh nc none by simp
      qed
    qed
  qed
qed

theorem retrieve_probe_order_witness:
  "in_hot fs_both ''BILL-00001'' \<and> in_cool fs_both ''BILL-00001'' \<and>
   read_data example_lib (COOL_TIER_PATH, ''BILL-00001.json.gz'') True fs_both = R2 \<and>
   fst (retrieve_data example_lib ''BILL-00001'' False fs_both) = Returns R1"
proof -
  have h: "in_hot fs_both ''BILL-00001''" and c: "in_cool fs_both ''BILL-00001''"
    by (simp_all add: in_tier_defs ex_defs lookup_def)
  have r1: "read_data example_lib (HOT_TIER_PATH, ''BILL-00001'' @ ''.json'') False fs_both = R1"
    and r2: "read_data example_lib (COOL_TIER_PATH, ''BILL-00001.json.gz'') True fs_both = R2"
    by (simp_all add: ex_defs model_defs)
  from retrieve_probe_order[of example_lib "''BILL-00001''" False fs_both] h c r1 r2
  show ?thesis by simp
qed

text \<open>
  Claim C6, as amended. When the identifier is absent from the hot, the cool and the
  archive tier, \<^verbatim>\<open>retrieve_data\<close> returns \<^verbatim>\<open>None\<close>, whatever the priority, and changes
  nothing. The converse does not hold: the program has no error of its own for an absent
  record, and \<^verbatim>\<open>None\<close> is also what it returns for a record that is present but cannot
  be read or decoded.
\<close>

theorem absent_everywhere_returns_none:
  assumes "\<not> in_hot s record_id" "\<not> in_cool s record_id" "\<not> in_archive s record_id"
  shows "retrieve_data lib record_id high_priority s = (Returns PyNone, s)"
  using assms by (simp add: retrieve_data_def in_tier_defs)

theorem absent_everywhere_returns_none_witness:
  "\<not> in_hot empty_fs ''BILL-99999'' \<and> \<not> in_cool empty_fs ''BILL-99999'' \<and>
   \<not> in_archive empty_fs ''BILL-99999'' \<and>
   retrieve_data example_lib ''BILL-99999'' False empty_fs = (Returns PyNone, empty_fs)"
proof -
  have a: "\<not> in_hot empty_fs ''BILL-99999''" "\<not> in_cool empty_fs ''BILL-99999''"
    "\<not> in_archive empty_fs ''BILL-99999''"
    by (simp_all add: in_tier_defs ex_defs lookup_def)
  from absent_everywhere_returns_none[OF a] a show ?thesis by simp
qed

text \<open>
  The claim as stated fails in the direction from the result to the absence: the hot
  tier holds a file for the identifier, its bytes are not JSON, and the result is
  \<^verbatim>\<open>None\<close> as for an absent record.
\<close>

theorem present_but_unreadable_returns_none:
  "in_hot fs_corrupt ''BILL-00001'' \<and>
   retrieve_data example_lib ''BILL-00001'' False fs_corrupt = (Returns PyNone, fs_corrupt)"
  by (simp add: in_tier_defs ex_defs model_defs)

text \<open>
  Claim C7. Running a transition pass twice in succession, with no ingestion and the same
  evaluation time \<open>now\<close>, moves nothing on the second run: a pass that has completed,
  run again on the file system it produced, completes and returns that file system
  unchanged.
\<close>

theorem transition_pass_idempotent:
  assumes "manage_data_tiers lib now s = (Returns (), s')"
  shows "manage_data_tiers lib now s' = (Returns (), s')"
proof -
  from assms obtain L L1 where
    L: "os_listdir HOT_TIER_PATH s = Inr L"
    and L1: "os_listdir COOL_TIER_PATH (fold (hot_step lib now) L s) = Inr L1"
    and s': "s' = fold (cool_step lib now) L1 (fold (hot_step lib now) L s)"
    by (auto simp: manage_data_tiers_def Let_def split: sum.splits)
  let ?s1 = "fold (hot_step lib now) L s"
  have hot_dir: "s' HOT_TIER_PATH \<noteq> None"
    using os_listdir_Inr[OF L] by (simp add: s' cool_loop_dir hot_loop_dir)
  have cool_dir: "s' COOL_TIER_PATH \<noteq> None"
    using os_listdir_Inr[OF L1] by (simp add: s' cool_loop_dir)
  from hot_dir obtain L2 where L2: "os_listdir HOT_TIER_PATH s' = Inr L2"
    using os_listdir_ok[of s' HOT_TIER_PATH] by blast
  from cool_dir obtain L3 where L3: "os_listdir COOL_TIER_PATH s' = Inr L3"
    using os_listdir_ok[of s' COOL_TIER_PATH] by blast
  have hot_settled: "\<not> hot_movable lib now s' g" for g
  proof -
    have "lookup s' (HOT_TIER_PATH, g) = lookup ?s1 (HOT_TIER_PATH, g)"
      by (simp add: s' cool_loop_lookup_hot)
    then have "hot_movable lib now s' g = hot_movable lib now ?s1 g"
      by (rule hot_movable_cong)
    then show ?thesis using hot_loop_settled[OF L] by simp
  qed
  have cool_settled: "\<not> cool_movable lib now s' g" if "g \<in> set L3" for g
  proof (cases "g \<in> set L1")
    case True
    then show ?thesis unfolding s' by (rule cool_loop_done)
  next
    case False
    then have "lookup ?s1 (COOL_TIER_PATH, g) = None"
      using os_listdir_mem[OF L1] by simp
    then have "lookup s' (COOL_TIER_PATH, g) = None"
      unfolding s' by (rule cool_loop_lookup_cool)
    then have "g \<notin> set L3" using os_listdir_mem[OF L3] by simp
    with that show ?thesis by simp
  qed
  have h: "fold (hot_step lib now) L2 s' = s'"
    by (rule hot_loop_idle) (simp add: hot_settled)
  have c: "fold (cool_step lib now) L3 s' = s'"
    by (rule cool_loop_idle) (simp add: cool_settled)
  show ?thesis
    by (simp add: manage_data_tiers_def L2 L3 h c)
qed

theorem transition_pass_idempotent_witness:
  "manage_data_tiers example_lib (days 400) fs_hot_only = (Returns (), fs_archived) \<and>
   manage_data_tiers example_lib (days 400) fs_archived = (Returns (), fs_archived)"
proof -
  have first: "manage_data_tiers example_lib (days 400) fs_hot_only = (Returns (), fs_archived)"
    by (simp add: ex_defs model_defs fun_eq_iff)
  from transition_pass_idempotent[OF first] first show ?thesis by simp
qed

text \<open>
  Claim C8, as amended. \<^verbatim>\<open>retrieve_data\<close> never deletes or changes the archive copy:
  whatever it returns, also when the rehydration fails, the hot, cool and archive
  directories are after the call what they were before. When the identifier is present
  only in the archive and a record (not \<^verbatim>\<open>None\<close>) is returned, that record is the one
  decoded from the archive file, and the entry of the identifier in the rehydrated
  directory holds it as JSON text, replacing an earlier entry, provided the write
  succeeds. A write that fails (a directory stands under the entry's name, or the record
  cannot be serialised) is swallowed by \<^verbatim>\<open>write_data\<close>: the record is returned all the
  same and the entry is left as it was.
\<close>

theorem rehydration_effects:
  "snd (retrieve_data lib record_id high_priority s) HOT_TIER_PATH = s HOT_TIER_PATH \<and>
   snd (retrieve_data lib record_id high_priority s) COOL_TIER_PATH = s COOL_TIER_PATH \<and>
   snd (retrieve_data lib record_id high_priority s) ARCHIVE_TIER_PATH = s ARCHIVE_TIER_PATH \<and>
   (\<not> in_hot s record_id \<and> \<not> in_cool s record_id \<and> in_archive s record_id \<and>
    fst (retrieve_data lib record_id high_priority s) = Returns data \<and> data \<noteq> PyNone \<longrightarrow>
      data = read_data lib (ARCHIVE_TIER_PATH, record_id @ ''.json.gz'') True s \<and>
      lookup (snd (retrieve_data lib record_id high_priority s))
          (REHYDRATED_TIER_PATH, record_id @ ''.json'') =
        (case json_dumps lib data of
           None \<Rightarrow> lookup s (REHYDRATED_TIER_PATH, record_id @ ''.json'')
         | Some js \<Rightarrow>
             if lookup s (REHYDRATED_TIER_PATH, record_id @ ''.json'') = Some Dir then Some Dir
             else Some (File js)))"
proof -
  let ?r = "retrieve_data lib record_id high_priority s"
  have frame: "snd ?r t = s t" if "t \<noteq> REHYDRATED_TIER_PATH" for t
    using that by (rule retrieve_frame)
  have cache: "data = read_data lib (ARCHIVE_TIER_PATH, record_id @ ''.json.gz'') True s \<and>
      lookup (snd ?r) (REHYDRATED_TIER_PATH, record_id @ ''.json'') =
        (case json_dumps lib data of
           None \<Rightarrow> lookup s (REHYDRATED_TIER_PATH, record_id @ ''.json'')
         | Some js \<Rightarrow>
             if lookup s (REHYDRATED_TIER_PATH, record_id @ ''.json'') = Some Dir then Some Dir
             else Some (File js))"
    if only: "\<not> in_hot s record_id" "\<not> in_cool s record_id" "in_archive s record_id"
      and ret: "fst ?r = Returns data" and ok: "data \<noteq> PyNone"
  proof -
    have "?r = (Returns data, snd ?r)" using ret by (simp add: prod_eq_iff)
    from retrieve_archive_success[OF only this ok] show ?thesis by simp
  qed
  show ?thesis using frame cache by simp
qed

text \<open>
  A successful rehydration, and one that fails because the archive file is not a gzip
  stream: the archive directory is the same after both.
\<close>

theorem rehydration_effects_witness:
  "\<not> in_hot fs_archived ''BILL-00001'' \<and> \<not> in_cool fs_archived ''BILL-00001'' \<and>
   in_archive fs_archived ''BILL-00001'' \<and>
   retrieve_data example_lib ''BILL-00001'' True fs_archived = (Returns R1, fs_rehydrated) \<and>
   R1 \<noteq> PyNone \<and>
   fs_rehydrated ARCHIVE_TIER_PATH = fs_archived ARCHIVE_TIER_PATH \<and>
   lookup fs_rehydrated (REHYDRATED_TIER_PATH, ''BILL-00001.json'') = Some (File R1_json) \<and>
   retrieve_data example_lib ''BILL-00001'' False fs_archive_corrupt =
     (Returns PyNone, fs_archive_corrupt) \<and>
   snd (retrieve_data example_lib ''BILL-00001'' False fs_archive_corrupt) ARCHIVE_TIER_PATH =
     Some [(''BILL-00001.json.gz'', File ''not gzip'')]"
proof -
  have only: "\<not> in_hot fs_archived ''BILL-00001''" "\<not> in_cool fs_archived ''BILL-00001''"
    "in_archive fs_archived ''BILL-00001''"
    by (simp_all add: in_tier_defs ex_defs lookup_def)
  have ret: "retrieve_data example_lib ''BILL-00001'' True fs_archived = (Returns R1, fs_rehydrated)"
    by (simp add: ex_defs model_defs fun_eq_iff)
  have ok: "R1 \<noteq> PyNone" by (simp add: R1_def)
  have d: "json_dumps example_lib R1 = Some R1_json"
    and e: "lookup fs_archived (REHYDRATED_TIER_PATH, ''BILL-00001'' @ ''.json'') = None"
    by (simp_all add: ex_defs lookup_def)
  have bad: "retrieve_data example_lib ''BILL-00001'' False fs_archive_corrupt =
     (Returns PyNone, fs_archive_corrupt)"
    by (simp add: ex_defs model_defs fun_eq_iff)
  have arch: "fs_archive_corrupt ARCHIVE_TIER_PATH = Some [(''BILL-00001.json.gz'', File ''not gzip'')]"
    by (simp add: ex_defs)
  from rehydration_effects[of example_lib "''BILL-00001''" True fs_archived R1]
    rehydration_effects[of example_lib "''BILL-00001''" False fs_archive_corrupt PyNone]
    only ret ok d e bad arch
  show ?thesis by simp
qed

text \<open>
  The claim as stated fails: a directory stands where the cache entry would be written.
  The retrieval succeeds and returns the record, and the rehydrated directory holds no
  copy of it afterwards.
\<close>

theorem cache_write_can_fail:
  "\<not> in_hot fs_cache_blocked ''BILL-00001'' \<and> \<not> in_cool fs_cache_blocked ''BILL-00001'' \<and>
   in_archive fs_cache_blocked ''BILL-00001'' \<and> R1 \<noteq> PyNone \<and>
   retrieve_data example_lib ''BILL-00001'' True fs_cache_blocked = (Returns R1, fs_cache_blocked) \<and>
   lookup fs_cache_blocked (REHYDRATED_TIER_PATH, ''BILL-00001.json'') = Some Dir"
  by (simp add: in_tier_defs ex_defs model_defs fun_eq_iff)

text \<open>
  Claim C9. \<^verbatim>\<open>retrieve_data\<close> is total: for every library, identifier, priority and file
  system it returns a value (a record or \<^verbatim>\<open>None\<close>) and never ends with an exception. In
  the model every operation that can raise (\<^verbatim>\<open>shutil.copyfile\<close>, \<^verbatim>\<open>os.remove\<close>, and inside
  \<^verbatim>\<open>read_data\<close> and \<^verbatim>\<open>write_data\<close> the opening of files, \<^verbatim>\<open>gzip\<close> and \<^verbatim>\<open>json\<close>) has its
  failure as a branch, and each such branch of \<^verbatim>\<open>retrieve_data\<close> is under a \<^verbatim>\<open>try\<close>.
\<close>

theorem retrieve_data_total:
  "\<exists>v s'. retrieve_data lib record_id high_priority s = (Returns v, s')"
  by (simp add: retrieve_data_def Let_def split: sum.splits)




text \<open>
  The amended statement leaves out names that contain \<^verbatim>\<open>.gz\<close>. For such a name the second
  loop looks for another file than the one the first loop wrote: the record stays in the
  cool tier, in this pass and in every later one.
\<close>

lemma name_with_gz_stays_in_cool:
  "replace_gz ''BILL.gz-1.json.gz'' = ''BILL-1.json'' \<and>
   manage_data_tiers example_lib (days 400)
     (empty_fs(HOT_TIER_PATH := Some [(''BILL.gz-1.json'', File R1_json)])) =
   (Returns (), empty_fs(COOL_TIER_PATH := Some [(''BILL.gz-1.json.gz'', File (gz_frame R1_json))]))"
  by (simp add: ex_defs model_defs fun_eq_iff)

end
